theory Spec2Isabelle
  imports Main "HOL-Library.Word"
begin

unbundle bit_operations_syntax

section \<open>The partclone image engine (libpartclone.c) over the POSIX backend (sysdep_posix.c)\<close>

text \<open>
  The engine is embedded function by function. State is passed explicitly: every C
  function that takes a \<open>pc_context_t *\<close> takes the context record and returns the
  updated one together with its \<open>int\<close> error code. Unsigned 64-bit quantities
  (block numbers, counts, offsets) are natural numbers; where the C arithmetic can wrap
  the reduction modulo \<open>2 ^ 64\<close> is written out with \<open>u64\<close>. Accesses that C leaves
  undefined (an index outside an allocation, a null pointer, an \<open>int\<close> sum out of
  range) are results of their own, of type \<open>fault\<close>, kept apart from the error
  codes the functions return.
\<close>

subsection \<open>Basic types and constants\<close>

type_synonym byte = "8 word"
type_synonym u32 = "32 word"

text \<open>errno.h values (Linux).\<close>

definition ENOENT :: int where "ENOENT = 2"
definition EIO :: int where "EIO = 5"
definition ENOMEM :: int where "ENOMEM = 12"
definition EINVAL :: int where "EINVAL = 22"

definition u64 :: "nat \<Rightarrow> nat" where
  "u64 n = n mod 2 ^ 64"

text \<open>Conversion of a \<open>uint64_t\<close> to \<open>int64_t\<close> (two's complement).\<close>

definition s64 :: "nat \<Rightarrow> int" where
  "s64 n = (if u64 n < 2 ^ 63 then int (u64 n) else int (u64 n) - 2 ^ 64)"

datatype fault = Null_Pointer | Out_Of_Bounds nat nat | Negative_Index int | Signed_Overflow

text \<open>
  The 32-bit \<open>int\<close>. A \<open>uint64_t\<close> assigned to an \<open>int\<close> keeps its low 32
  bits, read in two's complement (the conversion gcc defines); an \<open>int\<close> used as
  a \<open>uint64_t\<close> is taken modulo \<open>2 ^ 64\<close>; an \<open>int\<close> sum outside the range
  of \<open>int\<close> is undefined.
\<close>

definition INT_MAX :: int where "INT_MAX = 2 ^ 31 - 1"

definition int_of_u64 :: "nat \<Rightarrow> int" where
  "int_of_u64 n =
     (if n mod 2 ^ 32 < 2 ^ 31 then int (n mod 2 ^ 32) else int (n mod 2 ^ 32) - 2 ^ 32)"

definition u64_of_int :: "int \<Rightarrow> nat" where
  "u64_of_int x = nat (x mod 2 ^ 64)"

definition int_add :: "int \<Rightarrow> int \<Rightarrow> fault + int" where
  "int_add a b =
     (if - INT_MAX - 1 \<le> a + b \<and> a + b \<le> INT_MAX then Inr (a + b) else Inl Signed_Overflow)"

text \<open>\<open>memcpy (buf + off, src, length src)\<close> on a buffer held as a list.\<close>

definition memcpy_at :: "byte list \<Rightarrow> nat \<Rightarrow> byte list \<Rightarrow> byte list" where
  "memcpy_at buf off src = take off buf @ src @ drop (off + length src) buf"

subsection \<open>State flags (libpartclone.c, lines 29-73)\<close>

definition PC_OPEN :: u32 where "PC_OPEN = 0x0001"
definition PC_CF_OPEN :: u32 where "PC_CF_OPEN = 0x0002"
definition PC_VERIFIED :: u32 where "PC_VERIFIED = 0x0004"
definition PC_HAVE_CFDEP :: u32 where "PC_HAVE_CFDEP = 0x0040"
definition PC_HAVE_VERDEP :: u32 where "PC_HAVE_VERDEP = 0x0080"
definition PC_HAVE_IVBLOCK :: u32 where "PC_HAVE_IVBLOCK = 0x0100"
definition PC_CF_VERIFIED :: u32 where "PC_CF_VERIFIED = 0x0200"
definition PC_CF_INIT :: u32 where "PC_CF_INIT = 0x0400"
definition PC_VERSION_INIT :: u32 where "PC_VERSION_INIT = 0x0800"
definition PC_HEAD_VALID :: u32 where "PC_HEAD_VALID = 0x1000"
definition PC_HAVE_PATH :: u32 where "PC_HAVE_PATH = 0x2000"
definition PC_HAVE_CF_PATH :: u32 where "PC_HAVE_CF_PATH = 0x4000"
definition PC_VALID :: u32 where "PC_VALID = 0x8000"
definition PC_TOLERANT :: u32 where "PC_TOLERANT = 0x40000"
definition PC_READ_ONLY :: u32 where "PC_READ_ONLY = 0x80000"

subsection \<open>The POSIX backend (sysdep_posix.c)\<close>

text \<open>
  The open modes in the order of the table \<open>omode2flags\<close>: index 1 is \<open>O_RDONLY\<close>,
  2 is \<open>O_RDWR\<close>, 3 is \<open>O_WRONLY\<close>, 4 is \<open>O_RDWR | O_CREAT\<close>.
\<close>

datatype sysdep_open_mode =
  SYSDEP_OPEN_NONE | SYSDEP_OPEN_RO | SYSDEP_OPEN_RW | SYSDEP_OPEN_WO | SYSDEP_OPEN_RW_CREATE

fun omode_int :: "sysdep_open_mode \<Rightarrow> int" where
  "omode_int SYSDEP_OPEN_NONE = 0"
| "omode_int SYSDEP_OPEN_RO = 1"
| "omode_int SYSDEP_OPEN_RW = 2"
| "omode_int SYSDEP_OPEN_WO = 3"
| "omode_int SYSDEP_OPEN_RW_CREATE = 4"

text \<open>
  An open descriptor on a regular file: the file's bytes, the file offset and the mode
  it was opened with. With it travels \<open>errno\<close>, which belongs to the process and not
  to the descriptor: \<open>posix_open\<close> finds it as earlier calls of the process left it,
  a libc call that fails sets it, a call that succeeds leaves it alone, and
  \<open>posix_read\<close> and \<open>posix_write\<close> return it on a short transfer whether or not
  the transfer set it. It is carried here because \<open>pc_fd\<close> is the one descriptor the
  engine holds.
\<close>

record posix_file =
  f_data :: "byte list"
  f_pos :: nat
  f_omode :: sysdep_open_mode
  f_errno :: int

text \<open>
  What the engine reaches through \<open>pc_sysdep\<close> besides the descriptor: the files
  \<open>sys_open\<close> can find, whether \<open>sys_malloc\<close> of a given size succeeds, the
  contents of memory \<open>malloc\<close> hands out (bytes and 64-bit cells), which the engine
  does not clear, and the value \<open>errno\<close> has when the image is opened. For the change
  file: the change files that exist, and whether the backend's write that stores a
  given block of a change file succeeds.
\<close>

record sysdep_dispatch =
  sys_files :: "string \<rightharpoonup> byte list"
  sys_malloc_ok :: "nat \<Rightarrow> bool"
  sys_junk8 :: "nat \<Rightarrow> byte"
  sys_junk64 :: "nat \<Rightarrow> nat"
  sys_errno :: int
  sys_overlays :: "string \<rightharpoonup> (nat \<rightharpoonup> byte list)"
  sys_cf_write_ok :: "nat \<Rightarrow> bool"

text \<open>
  \<open>posix_open\<close>: the file is found or, with \<open>O_CREAT\<close>, made; the small
  allocation for the handle is taken to succeed. \<open>open\<close> that succeeds leaves
  \<open>errno\<close> as it was.
\<close>

definition posix_open :: "sysdep_dispatch \<Rightarrow> string \<Rightarrow> sysdep_open_mode \<Rightarrow> int \<times> posix_file option" where
  "posix_open sysdep p omode =
     (case sys_files sysdep p of
        Some d \<Rightarrow> (0, Some \<lparr>f_data = d, f_pos = 0, f_omode = omode,
                           f_errno = sys_errno sysdep\<rparr>)
      | None \<Rightarrow>
          if omode = SYSDEP_OPEN_RW_CREATE
          then (0, Some \<lparr>f_data = [], f_pos = 0, f_omode = omode,
                            f_errno = sys_errno sysdep\<rparr>)
          else (ENOENT, None))"

text \<open>\<open>posix_seek\<close> with \<open>SYSDEP_SEEK_ABSOLUTE\<close>, the only whence the engine uses.\<close>

definition posix_seek :: "posix_file \<Rightarrow> int \<Rightarrow> int \<times> posix_file" where
  "posix_seek fh offset =
     (if 0 \<le> offset then (0, fh\<lparr>f_pos := nat offset\<rparr>)
      else (EINVAL, fh\<lparr>f_errno := EINVAL\<rparr>))"

text \<open>
  \<open>posix_read\<close>: the error code, the count stored through \<open>nr\<close>, the bytes placed in
  the caller's buffer, and the descriptor afterwards. A read that meets the end of the
  file is short without being an error: \<open>errno\<close> is not set, and what is returned is
  the value it had.
\<close>

definition posix_read :: "posix_file \<Rightarrow> nat \<Rightarrow> int \<times> nat \<times> byte list \<times> posix_file" where
  "posix_read fh len =
     (let bytes = take len (drop (f_pos fh) (f_data fh));
          nr = length bytes
      in ((if nr = len then 0 else f_errno fh), nr, bytes, fh\<lparr>f_pos := f_pos fh + nr\<rparr>))"

definition posix_write :: "posix_file \<Rightarrow> byte list \<Rightarrow> int \<times> nat \<times> posix_file" where
  "posix_write fh buf =
     (if f_omode fh = SYSDEP_OPEN_RO \<or> f_omode fh = SYSDEP_OPEN_NONE
      then (9, u64 (2 ^ 64 - 1), fh\<lparr>f_errno := 9\<rparr>)
      else (0, length buf,
            fh\<lparr>f_data := take (f_pos fh) (f_data fh @ replicate (f_pos fh - length (f_data fh)) 0)
                            @ buf @ drop (f_pos fh + length buf) (f_data fh),
               f_pos := f_pos fh + length buf\<rparr>))"

subsection \<open>The change-file overlay (changefile.h)\<close>

text \<open>
  Modelled from the spec: the change-file functions \<open>cf_init\<close>, \<open>cf_create\<close>,
  \<open>cf_verify\<close>, \<open>cf_seek\<close>, \<open>cf_readblock\<close>, \<open>cf_writeblock\<close>, \<open>cf_blockused\<close>,
  \<open>cf_sync\<close> and \<open>cf_finish\<close>, whose implementation is not among the sources. The
  overlay is sparse block storage with a cursor: a block that was written is read back
  as written, a block never written gives the non-zero status \<open>CF_NO_OVERRIDE\<close>.
  Writing a block goes through the backend: when the backend's write fails, the block
  is not stored and \<open>cf_writeblock\<close> returns the I/O error. A null handle gives
  \<open>EINVAL\<close>. The functions are taken to leave \<open>errno\<close> as it is.
\<close>

record cf_context =
  cfc_block_size :: nat
  cfc_total_blocks :: nat
  cfc_curpos :: nat
  cfc_blocks :: "nat \<rightharpoonup> byte list"
  cfc_write_ok :: "nat \<Rightarrow> bool"

definition CF_NO_OVERRIDE :: int where "CF_NO_OVERRIDE = 6"

definition cf_init :: "string option \<Rightarrow> sysdep_dispatch \<Rightarrow> nat \<Rightarrow> nat \<Rightarrow> int \<times> cf_context option" where
  "cf_init path sysdep bs tb =
     (case path of
        None \<Rightarrow> (EINVAL, None)
      | Some cfp \<Rightarrow>
          (case sys_overlays sysdep cfp of
             None \<Rightarrow> (ENOENT, None)
           | Some m \<Rightarrow> (0, Some \<lparr>cfc_block_size = bs, cfc_total_blocks = tb,
                                 cfc_curpos = 0, cfc_blocks = m,
                                 cfc_write_ok = sys_cf_write_ok sysdep\<rparr>)))"

definition cf_create :: "string option \<Rightarrow> sysdep_dispatch \<Rightarrow> nat \<Rightarrow> nat \<Rightarrow> int \<times> cf_context option" where
  "cf_create path sysdep bs tb =
     (case path of
        None \<Rightarrow> (EINVAL, None)
      | Some cfp \<Rightarrow> (0, Some \<lparr>cfc_block_size = bs, cfc_total_blocks = tb,
                               cfc_curpos = 0, cfc_blocks = Map.empty,
                               cfc_write_ok = sys_cf_write_ok sysdep\<rparr>))"

definition cf_verify :: "cf_context option \<Rightarrow> int" where
  "cf_verify h = (case h of None \<Rightarrow> EINVAL | Some c \<Rightarrow> 0)"

definition cf_seek :: "cf_context option \<Rightarrow> nat \<Rightarrow> int \<times> cf_context option" where
  "cf_seek h blockno =
     (case h of None \<Rightarrow> (EINVAL, None) | Some c \<Rightarrow> (0, Some (c\<lparr>cfc_curpos := blockno\<rparr>)))"

definition cf_readblock :: "cf_context option \<Rightarrow> int \<times> byte list option" where
  "cf_readblock h =
     (case h of
        None \<Rightarrow> (EINVAL, None)
      | Some c \<Rightarrow>
          (case cfc_blocks c (cfc_curpos c) of
             None \<Rightarrow> (CF_NO_OVERRIDE, None)
           | Some d \<Rightarrow> (0, Some d)))"

definition cf_writeblock :: "cf_context option \<Rightarrow> byte list \<Rightarrow> int \<times> cf_context option" where
  "cf_writeblock h blk =
     (case h of
        None \<Rightarrow> (EINVAL, None)
      | Some c \<Rightarrow>
          if cfc_write_ok c (cfc_curpos c)
          then (0, Some (c\<lparr>cfc_blocks := (cfc_blocks c)(cfc_curpos c \<mapsto> blk)\<rparr>))
          else (EIO, Some c))"

definition cf_blockused :: "cf_context option \<Rightarrow> bool" where
  "cf_blockused h = (case h of None \<Rightarrow> False | Some c \<Rightarrow> cfc_blocks c (cfc_curpos c) \<noteq> None)"

definition cf_sync :: "cf_context option \<Rightarrow> int" where
  "cf_sync h = (case h of None \<Rightarrow> EINVAL | Some c \<Rightarrow> 0)"

subsection \<open>Image headers and the context\<close>

text \<open>
  Modelled from the spec: the constants of partclone.h, which is not among the sources:
  the image magic \<open>"partclone-image"\<close> compared over 16 bytes, the 8-byte trailing
  magic length and the 4-byte V1 checksum size.
\<close>

definition IMAGE_MAGIC :: "byte list" where
  "IMAGE_MAGIC = [0x70, 0x61, 0x72, 0x74, 0x63, 0x6C, 0x6F, 0x6E, 0x65, 0x2D,
                  0x69, 0x6D, 0x61, 0x67, 0x65, 0x00]"

definition IMAGE_MAGIC_SIZE :: nat where "IMAGE_MAGIC_SIZE = 16"
definition MAGIC_LEN :: nat where "MAGIC_LEN = 8"
definition CRC_SIZE :: nat where "CRC_SIZE = 4"

text \<open>\<open>cmagicstr\<close>, \<open>"BiTmAgIc"\<close> (libpartclone.c, line 99).\<close>

definition cmagicstr :: "byte list" where
  "cmagicstr = [0x42, 0x69, 0x54, 0x6D, 0x41, 0x67, 0x49, 0x63]"

definition cf_trailer :: string where
  "cf_trailer = ''.cf''"

definition V1_DEFAULT_FACTOR :: nat where "V1_DEFAULT_FACTOR = 10"
definition CRC_UNIT_BITS :: nat where "CRC_UNIT_BITS = 8"
definition CRC_TABLE_LEN :: nat where "CRC_TABLE_LEN = 2 ^ CRC_UNIT_BITS"

text \<open>The fields the engine reads from the on-disk headers.\<close>

record image_head_v1 =
  h1_magic :: "byte list"
  h1_version :: "byte list"
  h1_block_size :: nat
  h1_device_size :: nat
  h1_totalblock :: nat

record image_head_v2 =
  h2_magic :: "byte list"
  h2_block_size :: nat
  h2_device_size :: nat
  h2_totalblock :: nat
  h2_checksum_size :: nat
  h2_blocks_per_checksum :: nat

text \<open>
  The struct layouts of partclone.h and the CRC of libchecksum.h are parameters: the
  sizes of the two header structs and of the context, how the bytes read into the
  header union appear through the fields of each struct, and the CRC-32 that
  \<open>init_crc32\<close> and \<open>update_crc32\<close> compute over a buffer.
\<close>

record partclone_h =
  sizeof_head_v1 :: nat
  sizeof_head_v2 :: nat
  sizeof_pc_context :: nat
  view_head_v1 :: "byte list \<Rightarrow> image_head_v1"
  view_head_v2 :: "byte list \<Rightarrow> image_head_v2"
  lib_crc32 :: "byte list \<Rightarrow> u32"

text \<open>The normalised header \<open>pc_head\<close>.\<close>

record image_head =
  block_size :: nat
  totalblock :: nat
  device_size :: nat
  checksum_size :: nat
  blocks_per_checksum :: nat
  head_size :: nat

record v1_context =
  v1_bitmap :: "byte list option"
  v1_sumcount :: "nat list option"
  v1_nvbcount :: nat
  v1_crc_tab32 :: "u32 list"
  v1_bitmap_factor :: nat

text \<open>A row of the version dispatch table.\<close>

datatype version_dispatch = Version_0001 | Version_0002

text \<open>
  The context, with the fields libpartclone.c uses. \<open>pc_head_raw\<close> is the memory
  of the header union, which the code reads through \<open>pc_head_v1\<close> and
  \<open>pc_head_v2\<close>; \<open>pc_abi\<close> holds the layout parameters. A pointer field is an
  option, \<open>None\<close> for null. \<open>pc_fd\<close> is the open descriptor: \<open>partclone_open\<close>
  hands out a context only after \<open>sys_open\<close> succeeded. The entry points are
  modelled on a context; the null handle, which each of them refuses, is left out.
\<close>

record pc_context =
  pc_flags :: u32
  pc_sysdep :: sysdep_dispatch
  pc_abi :: partclone_h
  pc_fd :: posix_file
  pc_path :: string
  pc_cf_path :: "string option"
  pc_omode :: sysdep_open_mode
  pc_head_raw :: "byte list"
  pc_head :: image_head
  pc_curblock :: nat
  pc_verdep :: "v1_context option"
  pc_cf_handle :: "cf_context option"
  pc_ivblock :: "byte list option"
  pc_dispatch :: "version_dispatch option"

text \<open>
  \<open>malloc\<close> that fails sets \<open>errno\<close> to \<open>ENOMEM\<close>; \<open>posix_malloc\<close> stores
  the null pointer it got and returns \<open>ENOMEM\<close>.
\<close>

definition set_errno :: "int \<Rightarrow> pc_context \<Rightarrow> pc_context" where
  "set_errno e pcp = pcp\<lparr>pc_fd := (pc_fd pcp)\<lparr>f_errno := e\<rparr>\<rparr>"

definition pc_head_v1 :: "pc_context \<Rightarrow> image_head_v1" where
  "pc_head_v1 pcp = view_head_v1 (pc_abi pcp) (pc_head_raw pcp)"

definition pc_head_v2 :: "pc_context \<Rightarrow> image_head_v2" where
  "pc_head_v2 pcp = view_head_v2 (pc_abi pcp) (pc_head_raw pcp)"

subsection \<open>Macros that check state flags\<close>

definition PCTX_FLAGS_SET :: "pc_context \<Rightarrow> u32 \<Rightarrow> bool" where
  "PCTX_FLAGS_SET p f = (pc_flags p AND (f OR PC_VALID) = (f OR PC_VALID))"

definition PCTX_VALID :: "pc_context \<Rightarrow> bool" where
  "PCTX_VALID p = PCTX_FLAGS_SET p 0"

definition PCTX_OPEN :: "pc_context \<Rightarrow> bool" where
  "PCTX_OPEN p = PCTX_FLAGS_SET p PC_OPEN"

definition PCTX_TOLERANT :: "pc_context \<Rightarrow> bool" where
  "PCTX_TOLERANT p = PCTX_FLAGS_SET p PC_TOLERANT"

definition PCTX_READ_ONLY :: "pc_context \<Rightarrow> bool" where
  "PCTX_READ_ONLY p = (pc_flags p AND PC_READ_ONLY = PC_READ_ONLY)"

definition PCTX_VERIFIED :: "pc_context \<Rightarrow> bool" where
  "PCTX_VERIFIED p = PCTX_FLAGS_SET p (PC_OPEN OR PC_VERIFIED)"

definition PCTX_READREADY :: "pc_context \<Rightarrow> bool" where
  "PCTX_READREADY p =
     PCTX_FLAGS_SET p (PC_OPEN OR PC_VERIFIED OR PC_HEAD_VALID OR PC_VERSION_INIT)"

definition PCTX_CFREADY :: "pc_context \<Rightarrow> bool" where
  "PCTX_CFREADY p =
     PCTX_FLAGS_SET p (PC_OPEN OR PC_VERIFIED OR PC_HEAD_VALID OR PC_VERSION_INIT
                        OR PC_HAVE_CFDEP OR PC_CF_VERIFIED)"

definition PCTX_WRITEABLE :: "pc_context \<Rightarrow> bool" where
  "PCTX_WRITEABLE p = (\<not> PCTX_READ_ONLY p \<and> PCTX_READREADY p)"

definition PCTX_WRITEREADY :: "pc_context \<Rightarrow> bool" where
  "PCTX_WRITEREADY p = (\<not> PCTX_READ_ONLY p \<and> PCTX_CFREADY p)"

definition PCTX_HAVE_CF_PATH :: "pc_context \<Rightarrow> bool" where
  "PCTX_HAVE_CF_PATH p = (PCTX_FLAGS_SET p PC_HAVE_CF_PATH \<and> pc_cf_path p \<noteq> None)"

definition PCTX_HAVE_VERDEP :: "pc_context \<Rightarrow> bool" where
  "PCTX_HAVE_VERDEP p = (PCTX_FLAGS_SET p PC_HAVE_VERDEP \<and> pc_verdep p \<noteq> None)"

subsection \<open>Version 1 handling: initialisation and the CRC table\<close>

text \<open>One entry of the table built by \<open>v1_init\<close>: eight shift-and-xor steps.\<close>

definition crc_step :: "u32 \<Rightarrow> u32" where
  "crc_step init_crc =
     (if init_crc AND 0x00000001 \<noteq> 0 then drop_bit 1 init_crc XOR 0xEDB88320
      else drop_bit 1 init_crc)"

definition crc_tab32_entry :: "nat \<Rightarrow> u32" where
  "crc_tab32_entry i = (crc_step ^^ CRC_UNIT_BITS) (of_nat i)"

definition crc_tab32 :: "u32 list" where
  "crc_tab32 = map crc_tab32_entry [0..<CRC_TABLE_LEN]"

text \<open>Size of \<open>v1_context_t\<close> on an LP64 target.\<close>

definition sizeof_v1_context :: nat where
  "sizeof_v1_context = 1056"

definition v1_init :: "pc_context \<Rightarrow> int \<times> pc_context" where
  "v1_init pcp =
     (if PCTX_VALID pcp then
        if sys_malloc_ok (pc_sysdep pcp) sizeof_v1_context then
          let v1p = \<lparr>v1_bitmap = None, v1_sumcount = None, v1_nvbcount = 0,
                     v1_crc_tab32 = replicate CRC_TABLE_LEN 0, v1_bitmap_factor = 0\<rparr>;
              pcp1 = pcp\<lparr>pc_verdep := Some v1p,
                         pc_flags := pc_flags pcp OR (PC_HAVE_VERDEP OR PC_VERSION_INIT)\<rparr>;
              pcp2 =
                (if pc_cf_path pcp1 \<noteq> None \<and> omode_int (pc_omode pcp1) \<ge> omode_int SYSDEP_OPEN_RW
                 then
                   (case cf_init (pc_cf_path pcp1) (pc_sysdep pcp1)
                           (block_size (pc_head pcp1)) (totalblock (pc_head pcp1)) of
                      (e, h) \<Rightarrow>
                        if e = 0
                        then pcp1\<lparr>pc_cf_handle := h, pc_flags := pc_flags pcp1 OR PC_CF_OPEN\<rparr>
                        else pcp1\<lparr>pc_cf_handle := h\<rparr>)
                 else if omode_int (pc_omode pcp1) < omode_int SYSDEP_OPEN_RW
                   then pcp1\<lparr>pc_flags := pc_flags pcp1 OR PC_READ_ONLY\<rparr>
                   else pcp1)
          in (0, pcp2\<lparr>pc_verdep := Some (v1p\<lparr>v1_crc_tab32 := crc_tab32,
                                               v1_bitmap_factor := V1_DEFAULT_FACTOR\<rparr>)\<rparr>)
        else (ENOMEM, set_errno ENOMEM pcp)
      else (EINVAL, pcp))"

subsection \<open>Array accesses\<close>

text \<open>\<open>v1p->v1_bitmap[i]\<close> and \<open>v1p->v1_sumcount[k]\<close>, with the allocation's bounds.\<close>

definition bitmap_at :: "v1_context \<Rightarrow> nat \<Rightarrow> fault + byte" where
  "bitmap_at v1p i =
     (case v1_bitmap v1p of
        None \<Rightarrow> Inl Null_Pointer
      | Some bm \<Rightarrow> if i < length bm then Inr (bm ! i) else Inl (Out_Of_Bounds i (length bm)))"

definition sumcount_at :: "v1_context \<Rightarrow> nat \<Rightarrow> fault + nat" where
  "sumcount_at v1p k =
     (case v1_sumcount v1p of
        None \<Rightarrow> Inl Null_Pointer
      | Some sc \<Rightarrow> if k < length sc then Inr (sc ! k) else Inl (Out_Of_Bounds k (length sc)))"

subsection \<open>Precalculation of the prefix counts\<close>

text \<open>
  The loop of \<open>precalculate_sumcount\<close> (lines 191-207), from index \<open>i\<close> with running
  count \<open>nset\<close> and the array \<open>sc\<close>. The array has \<open>(totalblock >> factor) + 1\<close> cells
  and the loop stores at \<open>i >> factor\<close> for \<open>i < totalblock\<close>, which is inside it.
\<close>

function sumcount_loop :: "v1_context \<Rightarrow> nat \<Rightarrow> nat \<Rightarrow> nat \<Rightarrow> nat list \<Rightarrow> fault + nat list" where
  "sumcount_loop v1p tb i nset sc =
     (if i < tb then
        (let sc1 = (if i AND (2 ^ v1_bitmap_factor v1p - 1) = 0
                    then sc[drop_bit (v1_bitmap_factor v1p) i := nset] else sc)
         in case bitmap_at v1p i of
              Inl f \<Rightarrow> Inl f
            | Inr b \<Rightarrow> sumcount_loop v1p tb (i + 1) (if b = 1 then nset + 1 else nset) sc1)
      else Inr sc)"
  by pat_completeness auto
termination
  by (relation "measure (\<lambda>(v1p, tb, i, nset, sc). tb - i)") auto

declare sumcount_loop.simps [simp del]

definition precalculate_sumcount :: "pc_context \<Rightarrow> fault + (int \<times> pc_context)" where
  "precalculate_sumcount pcp =
     (case pc_verdep pcp of
        None \<Rightarrow> Inl Null_Pointer
      | Some v1p \<Rightarrow>
          let n = drop_bit (v1_bitmap_factor v1p) (totalblock (pc_head pcp)) + 1 in
          if sys_malloc_ok (pc_sysdep pcp) (n * 8) then
            (case sumcount_loop v1p (totalblock (pc_head pcp)) 0 0
                    (map (sys_junk64 (pc_sysdep pcp)) [0..<n]) of
               Inl f \<Rightarrow> Inl f
             | Inr sc \<Rightarrow>
                 let pcp1 = pcp\<lparr>pc_verdep := Some (v1p\<lparr>v1_sumcount := Some sc\<rparr>),
                                pc_head := (pc_head pcp)\<lparr>device_size :=
                                   u64 (totalblock (pc_head pcp) * block_size (pc_head pcp))\<rparr>\<rparr>
                 in if pc_cf_handle pcp1 \<noteq> None then
                      (let error = cf_verify (pc_cf_handle pcp1)
                       in if error = 0
                          then Inr (error, pcp1\<lparr>pc_flags := pc_flags pcp1 OR PC_CF_VERIFIED\<rparr>)
                          else Inr (error, pcp1))
                    else Inr (0, pcp1))
          else Inr (ENOMEM, set_errno ENOMEM
                              (pcp\<lparr>pc_verdep := Some (v1p\<lparr>v1_sumcount := None\<rparr>)\<rparr>)))"

subsection \<open>Verification of a version 1 and of a version 2 image\<close>

text \<open>
  A buffer of \<open>n\<close> freshly allocated bytes after \<open>sys_read\<close> has stored \<open>bytes\<close> at
  its start.
\<close>

definition read_into_fresh :: "sysdep_dispatch \<Rightarrow> nat \<Rightarrow> byte list \<Rightarrow> byte list" where
  "read_into_fresh sysdep n bytes = bytes @ map (sys_junk8 sysdep) [length bytes..<n]"

definition v1_verify :: "pc_context \<Rightarrow> fault + (int \<times> pc_context)" where
  "v1_verify pcp =
     (if PCTX_OPEN pcp then
        if take IMAGE_MAGIC_SIZE (h1_magic (pc_head_v1 pcp)) = take IMAGE_MAGIC_SIZE IMAGE_MAGIC then
          (case pc_verdep pcp of
             None \<Rightarrow> Inl Null_Pointer
           | Some v1p \<Rightarrow>
               let tb = h1_totalblock (pc_head_v1 pcp);
                   pcp1 = pcp\<lparr>pc_head := \<lparr>block_size = h1_block_size (pc_head_v1 pcp),
                                            totalblock = tb,
                                            device_size = h1_device_size (pc_head_v1 pcp),
                                            checksum_size = CRC_SIZE,
                                            blocks_per_checksum = 1,
                                            head_size = u64 (sizeof_head_v1 (pc_abi pcp) + tb + MAGIC_LEN)\<rparr>,
                              pc_flags := pc_flags pcp OR PC_HEAD_VALID\<rparr>
               in if sys_malloc_ok (pc_sysdep pcp1) tb then
                    (case posix_read (snd (posix_seek (pc_fd pcp1) (int (sizeof_head_v1 (pc_abi pcp1))))) tb of
                       (error, r_size, bytes, fd2) \<Rightarrow>
                         let pcp2 = pcp1\<lparr>pc_fd := fd2,
                                          pc_verdep := Some (v1p\<lparr>v1_bitmap :=
                                             Some (read_into_fresh (pc_sysdep pcp1) tb bytes)\<rparr>)\<rparr>
                         in if error = 0 \<and> r_size = tb then
                              (case posix_read (pc_fd pcp2) MAGIC_LEN of
                                 (error, r_size, magicstr, fd3) \<Rightarrow>
                                   if error = 0 \<and> r_size = MAGIC_LEN \<and> magicstr = cmagicstr
                                   then precalculate_sumcount (pcp2\<lparr>pc_fd := fd3\<rparr>)
                                   else Inr (if error = 0 then EINVAL else error, pcp2\<lparr>pc_fd := fd3\<rparr>))
                            else Inr (error, pcp2))
                  else Inr (ENOMEM, set_errno ENOMEM
                                      (pcp1\<lparr>pc_verdep := Some (v1p\<lparr>v1_bitmap := None\<rparr>)\<rparr>)))
        else Inr (EINVAL, pcp)
      else Inr (EINVAL, pcp))"

text \<open>The four checksum bytes after the bitmap, read as a \<open>crc32_t\<close> (little endian).\<close>

definition le32 :: "byte list \<Rightarrow> u32" where
  "le32 bs = word_rcat (rev (take 4 bs))"

text \<open>
  The conversion of the bit map into the byte map (lines 561-563). The counter \<open>i\<close>
  is an \<open>int\<close> that starts at 0 and is compared with the \<open>uint64_t\<close> block count;
  it is held as a natural number, and \<open>i++\<close> at \<open>INT_MAX\<close> is undefined. The store
  goes to \<open>v1_bitmap\<close>, the load comes from the buffer \<open>bitmap\<close> that was read.
\<close>

definition v2_bitmap_byte :: "byte list \<Rightarrow> nat \<Rightarrow> byte" where
  "v2_bitmap_byte bitmap i =
     (if (bitmap ! drop_bit 3 i) AND push_bit (i AND 7) 1 \<noteq> 0 then 1 else 0)"

function v2_bitmap_loop :: "byte list \<Rightarrow> nat \<Rightarrow> nat \<Rightarrow> byte list \<Rightarrow> fault + byte list" where
  "v2_bitmap_loop bitmap tb i bm =
     (if i < tb then
        if i < length bm then
          if drop_bit 3 i < length bitmap then
            if int i < INT_MAX
            then v2_bitmap_loop bitmap tb (i + 1) (bm[i := v2_bitmap_byte bitmap i])
            else Inl Signed_Overflow
          else Inl (Out_Of_Bounds (drop_bit 3 i) (length bitmap))
        else Inl (Out_Of_Bounds i (length bm))
      else Inr bm)"
  by pat_completeness auto
termination
  by (relation "measure (\<lambda>(bitmap, tb, i, bm). tb - i)") auto

declare v2_bitmap_loop.simps [simp del]

text \<open>
  \<open>v2_verify\<close>. \<open>bitmap_size\<close> is an \<open>int\<close>: it receives \<open>totalblock / 8\<close>
  converted to \<open>int\<close> and is incremented when \<open>totalblock % 8\<close> is not 0.
  \<open>head_size\<close> is computed in \<open>size_t\<close>; the length \<open>bitmap_size + CRC_SIZE\<close>
  that is allocated, read and compared with \<open>r_size\<close> is an \<open>int\<close> sum (\<open>CRC_SIZE\<close>
  taken as an \<open>int\<close> constant) converted to \<open>uint64_t\<close>. The stored checksum is
  loaded from \<open>bitmap + bitmap_size\<close>.
\<close>

definition v2_verify :: "pc_context \<Rightarrow> fault + (int \<times> pc_context)" where
  "v2_verify pcp =
     (if PCTX_OPEN pcp then
        if take IMAGE_MAGIC_SIZE (h2_magic (pc_head_v2 pcp)) = take IMAGE_MAGIC_SIZE IMAGE_MAGIC then
          (case pc_verdep pcp of
             None \<Rightarrow> Inl Null_Pointer
           | Some v1p \<Rightarrow>
               let tb = h2_totalblock (pc_head_v2 pcp) in
               (case (if tb mod 8 \<noteq> 0 then int_add (int_of_u64 (tb div 8)) 1
                      else Inr (int_of_u64 (tb div 8))) of
                  Inl f \<Rightarrow> Inl f
                | Inr bitmap_size \<Rightarrow>
                    let pcp1 = pcp\<lparr>pc_head := \<lparr>block_size = h2_block_size (pc_head_v2 pcp),
                                                 totalblock = tb,
                                                 device_size = h2_device_size (pc_head_v2 pcp),
                                                 checksum_size = h2_checksum_size (pc_head_v2 pcp),
                                                 blocks_per_checksum = h2_blocks_per_checksum (pc_head_v2 pcp),
                                                 head_size = u64 (sizeof_head_v2 (pc_abi pcp)
                                                                  + u64_of_int bitmap_size + CRC_SIZE)\<rparr>,
                                   pc_flags := pc_flags pcp OR PC_HEAD_VALID\<rparr>
                    in if sys_malloc_ok (pc_sysdep pcp1) tb then
                         (let pcp2 = pcp1\<lparr>pc_fd := snd (posix_seek (pc_fd pcp1) (int (sizeof_head_v2 (pc_abi pcp1)))),
                                          pc_verdep := Some (v1p\<lparr>v1_bitmap :=
                                             Some (map (sys_junk8 (pc_sysdep pcp1)) [0..<tb])\<rparr>)\<rparr>
                          in case int_add bitmap_size (int CRC_SIZE) of
                               Inl f \<Rightarrow> Inl f
                             | Inr len \<Rightarrow>
                                 if sys_malloc_ok (pc_sysdep pcp2) (u64_of_int len) then
                                   (case posix_read (pc_fd pcp2) (u64_of_int len) of
                                      (error, r_size, bitmap, fd3) \<Rightarrow>
                                        if error = 0 \<and> r_size = u64_of_int len then
                                          if bitmap_size < 0 then Inl (Negative_Index bitmap_size)
                                          else if lib_crc32 (pc_abi pcp2) (take (nat bitmap_size) bitmap)
                                                    \<noteq> le32 (drop (nat bitmap_size) bitmap)
                                          then Inr (EINVAL, pcp2\<lparr>pc_fd := fd3\<rparr>)
                                          else
                                            (case v2_bitmap_loop bitmap tb 0
                                                    (map (sys_junk8 (pc_sysdep pcp1)) [0..<tb]) of
                                               Inl f \<Rightarrow> Inl f
                                             | Inr bm \<Rightarrow>
                                                 precalculate_sumcount
                                                   (pcp2\<lparr>pc_fd := fd3,
                                                         pc_verdep := Some (v1p\<lparr>v1_bitmap := Some bm\<rparr>)\<rparr>))
                                        else Inr (if error = 0 then EINVAL else error, pcp2\<lparr>pc_fd := fd3\<rparr>))
                                 else Inr (ENOMEM, set_errno ENOMEM pcp2))
                       else Inr (ENOMEM, set_errno ENOMEM
                                           (pcp1\<lparr>pc_verdep := Some (v1p\<lparr>v1_bitmap := None\<rparr>)\<rparr>))))
        else Inr (EINVAL, pcp)
      else Inr (EINVAL, pcp))"

subsection \<open>Seeking, offsets and the bug-compatible CRC\<close>

text \<open>
  The loop of \<open>v1_seek\<close> (lines 331-336): it counts the bitmap bytes that are non-zero
  from \<open>pbn\<close> up to \<open>blockno\<close>.
\<close>

function seek_loop :: "v1_context \<Rightarrow> nat \<Rightarrow> nat \<Rightarrow> nat \<Rightarrow> fault + nat" where
  "seek_loop v1p blockno pbn nvbcount =
     (if pbn < blockno then
        (case bitmap_at v1p pbn of
           Inl f \<Rightarrow> Inl f
         | Inr b \<Rightarrow> seek_loop v1p blockno (pbn + 1) (if b \<noteq> 0 then u64 (nvbcount + 1) else nvbcount))
      else Inr nvbcount)"
  by pat_completeness auto
termination
  by (relation "measure (\<lambda>(v1p, blockno, pbn, nvbcount). blockno - pbn)") auto

declare seek_loop.simps [simp del]

text \<open>
  \<open>~((1 << factor) - 1)\<close> is an \<open>int\<close>; converted to \<open>uint64_t\<close> it is
  \<open>2 ^ 64 - 2 ^ factor\<close>.
\<close>

definition v1_seek :: "pc_context \<Rightarrow> nat \<Rightarrow> fault + (int \<times> pc_context)" where
  "v1_seek pcp blockno =
     (if PCTX_HAVE_VERDEP pcp then
        (case pc_verdep pcp of
           None \<Rightarrow> Inr (EINVAL, pcp)
         | Some v1p \<Rightarrow>
             (case sumcount_at v1p (drop_bit (v1_bitmap_factor v1p) blockno) of
                Inl f \<Rightarrow> Inl f
              | Inr n0 \<Rightarrow>
                  (case seek_loop v1p blockno (blockno AND (2 ^ 64 - 2 ^ v1_bitmap_factor v1p)) n0 of
                     Inl f \<Rightarrow> Inl f
                   | Inr n \<Rightarrow>
                       let pcp1 = pcp\<lparr>pc_verdep := Some (v1p\<lparr>v1_nvbcount := n\<rparr>)\<rparr>
                       in if pc_cf_handle pcp1 \<noteq> None
                          then (case cf_seek (pc_cf_handle pcp1) blockno of
                                  (e, h) \<Rightarrow> Inr (e, pcp1\<lparr>pc_cf_handle := h\<rparr>))
                          else Inr (0, pcp1))))
      else Inr (EINVAL, pcp))"

definition rblock2offset :: "pc_context \<Rightarrow> nat \<Rightarrow> int" where
  "rblock2offset pcp rbnum =
     (let offset = u64 (head_size (pc_head pcp) + rbnum * block_size (pc_head pcp));
          offset1 = (if blocks_per_checksum (pc_head pcp) \<noteq> 0
                     then u64 (offset + (rbnum div blocks_per_checksum (pc_head pcp))
                                          * checksum_size (pc_head pcp))
                     else offset)
      in s64 offset1)"

function v1_crc32_loop :: "v1_context \<Rightarrow> u32 \<Rightarrow> byte list \<Rightarrow> nat \<Rightarrow> nat \<Rightarrow> fault + u32" where
  "v1_crc32_loop v1p crc buf sz s =
     (if s < sz then
        (case buf of
           [] \<Rightarrow> Inl (Out_Of_Bounds 0 0)
         | c # rest \<Rightarrow>
             let tmp = crc XOR (ucast c AND 0x000000ff)
             in v1_crc32_loop v1p (drop_bit 8 crc XOR (v1_crc_tab32 v1p ! unat (tmp AND 0xff)))
                  buf sz (s + 1))
      else Inr crc)"
  by pat_completeness auto
termination
  by (relation "measure (\<lambda>(v1p, crc, buf, sz, s). sz - s)") auto

declare v1_crc32_loop.simps [simp del]

definition v1_crc32 :: "v1_context \<Rightarrow> u32 \<Rightarrow> byte list \<Rightarrow> nat \<Rightarrow> fault + u32" where
  "v1_crc32 v1p crc buf sz = v1_crc32_loop v1p crc buf sz 0"

subsection \<open>Reading and writing one block\<close>

text \<open>
  \<open>buffer\<close> is the caller's whole buffer and \<open>cbp\<close> the offset in it at which the
  block is stored. The result holds the error code, the context and the buffer.
\<close>

definition v1_readblock :: "pc_context \<Rightarrow> byte list \<Rightarrow> nat \<Rightarrow> fault + (int \<times> pc_context \<times> byte list)" where
  "v1_readblock pcp buffer cbp =
     (if PCTX_HAVE_VERDEP pcp then
        (case (if pc_cf_handle pcp \<noteq> None
               then (case cf_readblock (snd (cf_seek (pc_cf_handle pcp) (pc_curblock pcp))) of
                       (e, blk) \<Rightarrow>
                         (e, pcp\<lparr>pc_cf_handle := snd (cf_seek (pc_cf_handle pcp) (pc_curblock pcp))\<rparr>,
                          (case blk of None \<Rightarrow> buffer | Some d \<Rightarrow> memcpy_at buffer cbp d)))
               else (EINVAL, pcp, buffer)) of
           (error, pcp1, buffer1) \<Rightarrow>
             if error \<noteq> 0 then
               (case pc_verdep pcp1 of
                  None \<Rightarrow> Inl Null_Pointer
                | Some v1p \<Rightarrow>
                    (case bitmap_at v1p (pc_curblock pcp1) of
                       Inl f \<Rightarrow> Inl f
                     | Inr b \<Rightarrow>
                         if b \<noteq> 0 then
                           (case posix_seek (pc_fd pcp1) (rblock2offset pcp1 (v1_nvbcount v1p)) of
                              (e, fd1) \<Rightarrow>
                                if e = 0 then
                                  (case posix_read fd1 (block_size (pc_head pcp1)) of
                                     (e2, r_size, bytes, fd2) \<Rightarrow>
                                       Inr (if r_size \<noteq> block_size (pc_head pcp1) then EIO else e,
                                            pcp1\<lparr>pc_fd := fd2,
                                                 pc_verdep := Some (v1p\<lparr>v1_nvbcount :=
                                                    u64 (v1_nvbcount v1p + 1)\<rparr>)\<rparr>,
                                            memcpy_at buffer1 cbp bytes))
                                else Inr (e, pcp1\<lparr>pc_fd := fd1\<rparr>, buffer1))
                         else
                           (case pc_ivblock pcp1 of
                              None \<Rightarrow> Inl Null_Pointer
                            | Some iv \<Rightarrow>
                                Inr (0, pcp1,
                                     memcpy_at buffer1 cbp (take (block_size (pc_head pcp1)) iv)))))
             else Inr (error, pcp1, buffer1))
      else Inr (EINVAL, pcp, buffer))"

definition v1_writeblock :: "pc_context \<Rightarrow> byte list \<Rightarrow> nat \<Rightarrow> int \<times> pc_context" where
  "v1_writeblock pcp buffer cbp =
     (if PCTX_HAVE_VERDEP pcp then
        (case (if \<not> PCTX_WRITEREADY pcp then
                 (let pcp1 =
                        (if \<not> PCTX_HAVE_CF_PATH pcp then
                           if sys_malloc_ok (pc_sysdep pcp) (length (pc_path pcp) + length cf_trailer + 1)
                           then pcp\<lparr>pc_cf_path := Some (pc_path pcp @ cf_trailer),
                                     pc_flags := pc_flags pcp OR PC_HAVE_CF_PATH\<rparr>
                           else set_errno ENOMEM (pcp\<lparr>pc_cf_path := None\<rparr>)
                         else pcp)
                  in case cf_create (pc_cf_path pcp1) (pc_sysdep pcp1)
                            (block_size (pc_head pcp1)) (totalblock (pc_head pcp1)) of
                       (e, h) \<Rightarrow>
                         if e = 0
                         then (e, pcp1\<lparr>pc_cf_handle := h,
                                       pc_flags := pc_flags pcp1 OR (PC_HAVE_CFDEP OR PC_CF_VERIFIED)\<rparr>)
                         else (e, pcp1\<lparr>pc_cf_handle := h\<rparr>))
               else (0, pcp)) of
           (error, pcp2) \<Rightarrow>
             if error = 0 then
               (case cf_writeblock (snd (cf_seek (pc_cf_handle pcp2) (pc_curblock pcp2)))
                       (take (block_size (pc_head pcp2)) (drop cbp buffer)) of
                  (e, h) \<Rightarrow> (e, pcp2\<lparr>pc_cf_handle := h\<rparr>))
             else (error, pcp2))
      else (EINVAL, pcp))"

definition v1_sync :: "pc_context \<Rightarrow> int" where
  "v1_sync pcp = (if PCTX_WRITEREADY pcp then cf_sync (pc_cf_handle pcp) else EINVAL)"

subsection \<open>The version dispatch table\<close>

text \<open>
  Modelled from the spec: \<open>VERSION_SIZE\<close> of partclone.h, the length of the 4-byte
  version stamp that \<open>partclone_verify\<close> compares.
\<close>

definition VERSION_SIZE :: nat where "VERSION_SIZE = 4"

text \<open>The rows \<open>"0001"\<close> and \<open>"0002"\<close>; they differ in \<open>version_verify\<close> only.\<close>

definition version_table :: "(byte list \<times> version_dispatch) list" where
  "version_table = [([0x30, 0x30, 0x30, 0x31], Version_0001),
                    ([0x30, 0x30, 0x30, 0x32], Version_0002)]"

fun version_init :: "version_dispatch \<Rightarrow> pc_context \<Rightarrow> int \<times> pc_context" where
  "version_init Version_0001 = v1_init"
| "version_init Version_0002 = v1_init"

fun version_verify :: "version_dispatch \<Rightarrow> pc_context \<Rightarrow> fault + (int \<times> pc_context)" where
  "version_verify Version_0001 = v1_verify"
| "version_verify Version_0002 = v2_verify"

fun version_seek :: "version_dispatch \<Rightarrow> pc_context \<Rightarrow> nat \<Rightarrow> fault + (int \<times> pc_context)" where
  "version_seek Version_0001 = v1_seek"
| "version_seek Version_0002 = v1_seek"

fun version_readblock ::
  "version_dispatch \<Rightarrow> pc_context \<Rightarrow> byte list \<Rightarrow> nat \<Rightarrow> fault + (int \<times> pc_context \<times> byte list)" where
  "version_readblock Version_0001 = v1_readblock"
| "version_readblock Version_0002 = v1_readblock"

fun version_writeblock :: "version_dispatch \<Rightarrow> pc_context \<Rightarrow> byte list \<Rightarrow> nat \<Rightarrow> int \<times> pc_context" where
  "version_writeblock Version_0001 = v1_writeblock"
| "version_writeblock Version_0002 = v1_writeblock"

subsection \<open>The public interface\<close>

text \<open>
  \<open>partclone_open\<close>: the context is allocated and cleared, the image is opened with
  \<open>SYSDEP_OPEN_RO\<close>, the paths are copied. On an error the context is closed and the
  caller gets a null handle.
\<close>

definition partclone_open ::
  "string \<Rightarrow> string option \<Rightarrow> sysdep_open_mode \<Rightarrow> sysdep_dispatch \<Rightarrow> partclone_h
     \<Rightarrow> int \<times> pc_context option" where
  "partclone_open path cfpath omode sysdep abi =
     (if sys_malloc_ok sysdep (sizeof_pc_context abi) then
        (case posix_open sysdep path SYSDEP_OPEN_RO of
           (error, None) \<Rightarrow> (error, None)
         | (error, Some fd) \<Rightarrow>
             if error = 0 then
               if sys_malloc_ok sysdep (length path + 1) then
                 (let pcp = \<lparr>pc_flags = 0 OR PC_VALID OR PC_OPEN OR PC_HAVE_PATH,
                             pc_sysdep = sysdep, pc_abi = abi, pc_fd = fd, pc_path = path,
                             pc_cf_path = None, pc_omode = omode,
                             pc_head_raw = replicate (max (sizeof_head_v1 abi) (sizeof_head_v2 abi)) 0,
                             pc_head = \<lparr>block_size = 0, totalblock = 0, device_size = 0,
                                        checksum_size = 0, blocks_per_checksum = 0, head_size = 0\<rparr>,
                             pc_curblock = 0, pc_verdep = None, pc_cf_handle = None,
                             pc_ivblock = None, pc_dispatch = None\<rparr>
                  in case cfpath of
                       None \<Rightarrow> (0, Some pcp)
                     | Some cfp \<Rightarrow>
                         if sys_malloc_ok sysdep (length cfp + 1)
                         then (0, Some (pcp\<lparr>pc_flags := pc_flags pcp OR PC_HAVE_CF_PATH,
                                             pc_cf_path := Some cfp\<rparr>))
                         else (ENOMEM, None))
               else (ENOMEM, None)
             else (error, None))
      else (ENOMEM, None))"

definition partclone_tolerant_mode :: "pc_context \<Rightarrow> pc_context" where
  "partclone_tolerant_mode pcp =
     (if PCTX_OPEN pcp then pcp\<lparr>pc_flags := pc_flags pcp OR PC_TOLERANT\<rparr> else pcp)"

definition find_version :: "byte list \<Rightarrow> version_dispatch option" where
  "find_version v =
     map_option snd (find (\<lambda>row. take VERSION_SIZE v = take VERSION_SIZE (fst row)) version_table)"

definition partclone_verify :: "pc_context \<Rightarrow> fault + (int \<times> pc_context)" where
  "partclone_verify pcp =
     (if PCTX_OPEN pcp then
        (case posix_read (pc_fd pcp) (sizeof_head_v1 (pc_abi pcp)) of
           (error, r_size, bytes, fd1) \<Rightarrow>
             let pcp1 = pcp\<lparr>pc_fd := fd1,
                             pc_head_raw := bytes @ drop (length bytes) (pc_head_raw pcp)\<rparr>
             in if error = 0 \<and> r_size = sizeof_head_v1 (pc_abi pcp) then
                  (case find_version (h1_version (pc_head_v1 pcp1)) of
                     Some d \<Rightarrow>
                       (case version_init d (pcp1\<lparr>pc_dispatch := Some d\<rparr>) of
                          (error, pcp2) \<Rightarrow>
                            if error = 0 then
                              (case version_verify d pcp2 of
                                 Inl f \<Rightarrow> Inl f
                               | Inr (error, pcp3) \<Rightarrow>
                                   if error = 0 then
                                     (let pcp4 = pcp3\<lparr>pc_flags := pc_flags pcp3 OR PC_VERIFIED,
                                                      pc_curblock := 0\<rparr>
                                      in if sys_malloc_ok (pc_sysdep pcp4) (block_size (pc_head pcp4))
                                         then Inr (0, pcp4\<lparr>pc_ivblock :=
                                                        Some (replicate (block_size (pc_head pcp4)) 0),
                                                      pc_flags := pc_flags pcp4 OR PC_HAVE_IVBLOCK\<rparr>)
                                         else Inr (ENOMEM, set_errno ENOMEM
                                                             (pcp4\<lparr>pc_ivblock := None\<rparr>)))
                                   else Inr (error, pcp3))
                            else Inr (error, pcp2))
                   | None \<Rightarrow> Inr (ENOENT, pcp1))
                else Inr (if error = 0 then EIO else error, pcp1))
      else Inr (EINVAL, pcp))"

definition partclone_seek :: "pc_context \<Rightarrow> nat \<Rightarrow> fault + (int \<times> pc_context)" where
  "partclone_seek pcp blockno =
     (if PCTX_READREADY pcp \<and> blockno \<le> totalblock (pc_head pcp) then
        (case pc_dispatch pcp of
           None \<Rightarrow> Inl Null_Pointer
         | Some d \<Rightarrow>
             (case version_seek d pcp blockno of
                Inl f \<Rightarrow> Inl f
              | Inr (error, pcp1) \<Rightarrow>
                  if error = 0 then Inr (error, pcp1\<lparr>pc_curblock := blockno\<rparr>)
                  else Inr (error, pcp1)))
      else Inr (EINVAL, pcp))"

definition partclone_tell :: "pc_context \<Rightarrow> nat" where
  "partclone_tell pcp = (if PCTX_READREADY pcp then pc_curblock pcp else 2 ^ 64 - 1)"

text \<open>
  The loop of \<open>partclone_readblocks\<close> (lines 821-827). Besides the error code, the
  context and the buffer, the result holds \<open>bindex\<close> on leaving the loop: the number
  of blocks read without error.
\<close>

function readblocks_loop ::
  "nat \<Rightarrow> nat \<Rightarrow> int \<Rightarrow> pc_context \<Rightarrow> byte list \<Rightarrow> nat
     \<Rightarrow> fault + (int \<times> nat \<times> pc_context \<times> byte list)" where
  "readblocks_loop nblocks bindex error pcp buffer cbp =
     (if bindex < nblocks then
        (case pc_dispatch pcp of
           None \<Rightarrow> Inl Null_Pointer
         | Some d \<Rightarrow>
             (case version_readblock d pcp buffer cbp of
                Inl f \<Rightarrow> Inl f
              | Inr (e, pcp1, buffer1) \<Rightarrow>
                  if e \<noteq> 0 then Inr (e, bindex, pcp1, buffer1)
                  else readblocks_loop nblocks (bindex + 1) e
                         (pcp1\<lparr>pc_curblock := u64 (pc_curblock pcp1 + 1)\<rparr>) buffer1
                         (cbp + block_size (pc_head pcp1))))
      else Inr (error, bindex, pcp, buffer))"
  by pat_completeness auto
termination
  by (relation "measure (\<lambda>(nblocks, bindex, error, pcp, buffer, cbp). nblocks - bindex)") auto

declare readblocks_loop.simps [simp del]

definition partclone_readblocks ::
  "pc_context \<Rightarrow> byte list \<Rightarrow> nat \<Rightarrow> fault + (int \<times> pc_context \<times> byte list)" where
  "partclone_readblocks pcp buffer nblocks =
     (if PCTX_READREADY pcp then
        (case readblocks_loop nblocks 0 EINVAL pcp buffer 0 of
           Inl f \<Rightarrow> Inl f
         | Inr (error, bindex, pcp1, buffer1) \<Rightarrow> Inr (error, pcp1, buffer1))
      else Inr (EINVAL, pcp, buffer))"

function writeblocks_loop ::
  "nat \<Rightarrow> nat \<Rightarrow> int \<Rightarrow> pc_context \<Rightarrow> byte list \<Rightarrow> nat \<Rightarrow> fault + (int \<times> nat \<times> pc_context)" where
  "writeblocks_loop nblocks bindex error pcp buffer cbp =
     (if bindex < nblocks then
        (case pc_dispatch pcp of
           None \<Rightarrow> Inl Null_Pointer
         | Some d \<Rightarrow>
             (case version_writeblock d pcp buffer cbp of
                (e, pcp1) \<Rightarrow>
                  if e \<noteq> 0 then Inr (e, bindex, pcp1)
                  else writeblocks_loop nblocks (bindex + 1) e
                         (pcp1\<lparr>pc_curblock := u64 (pc_curblock pcp1 + 1)\<rparr>) buffer
                         (cbp + block_size (pc_head pcp1))))
      else Inr (error, bindex, pcp))"
  by pat_completeness auto
termination
  by (relation "measure (\<lambda>(nblocks, bindex, error, pcp, buffer, cbp). nblocks - bindex)") auto

declare writeblocks_loop.simps [simp del]

definition partclone_writeblocks :: "pc_context \<Rightarrow> byte list \<Rightarrow> nat \<Rightarrow> fault + (int \<times> pc_context)" where
  "partclone_writeblocks pcp buffer nblocks =
     (if PCTX_WRITEABLE pcp then
        (case writeblocks_loop nblocks 0 EINVAL pcp buffer 0 of
           Inl f \<Rightarrow> Inl f
         | Inr (error, bindex, pcp1) \<Rightarrow> Inr (error, pcp1))
      else Inr (EINVAL, pcp))"

definition partclone_sync :: "pc_context \<Rightarrow> int" where
  "partclone_sync pcp = (if PCTX_WRITEREADY pcp then v1_sync pcp else EINVAL)"

subsection \<open>Sequences of calls\<close>




section \<open>Sample images\<close>

text \<open>
  The examples below fix the parameters: a header layout of 24 bytes (the magic, the
  version, then one byte each for the block size and the device size and two bytes for
  the block count), a backend where every allocation and every write to a change file
  succeeds, fresh memory holds \<open>0xAA\<close> bytes and \<open>0xDEADBEEF\<close> cells and
  \<open>errno\<close> was left at 25 (\<open>ENOTTY\<close>), and one image file, \<open>disk.img\<close>.
\<close>

definition sample_view_v1 :: "byte list \<Rightarrow> image_head_v1" where
  "sample_view_v1 bs =
     \<lparr>h1_magic = take 16 bs, h1_version = take 4 (drop 16 bs),
      h1_block_size = unat (bs ! 20), h1_device_size = unat (bs ! 21),
      h1_totalblock = unat (bs ! 22) + 256 * unat (bs ! 23)\<rparr>"

definition sample_view_v2 :: "byte list \<Rightarrow> image_head_v2" where
  "sample_view_v2 bs =
     \<lparr>h2_magic = take 16 bs, h2_block_size = unat (bs ! 20), h2_device_size = unat (bs ! 21),
      h2_totalblock = unat (bs ! 22) + 256 * unat (bs ! 23),
      h2_checksum_size = 4, h2_blocks_per_checksum = 1\<rparr>"

definition sample_abi :: partclone_h where
  "sample_abi =
     \<lparr>sizeof_head_v1 = 24, sizeof_head_v2 = 24, sizeof_pc_context = 512,
      view_head_v1 = sample_view_v1, view_head_v2 = sample_view_v2,
      lib_crc32 = (\<lambda>bs. 0)\<rparr>"

text \<open>A V1 image with 4-byte blocks: header, usage map, trailing magic, stored blocks.\<close>

definition sample_image :: "byte list \<Rightarrow> byte list \<Rightarrow> byte list \<Rightarrow> byte list" where
  "sample_image bitmap magic blocks =
     IMAGE_MAGIC @ [0x30, 0x30, 0x30, 0x31]
       @ [4, 0, of_nat (length bitmap mod 256), of_nat (length bitmap div 256)]
       @ bitmap @ magic @ blocks"

definition sample_sysdep :: "byte list \<Rightarrow> sysdep_dispatch" where
  "sample_sysdep img =
     \<lparr>sys_files = [''disk.img'' \<mapsto> img], sys_malloc_ok = (\<lambda>n. True),
      sys_junk8 = (\<lambda>i. 0xAA), sys_junk64 = (\<lambda>i. 0xDEADBEEF), sys_errno = 25,
      sys_overlays = Map.empty, sys_cf_write_ok = (\<lambda>n. True)\<rparr>"

definition sample_opened :: "sysdep_open_mode \<Rightarrow> byte list \<Rightarrow> pc_context" where
  "sample_opened omode img =
     the (snd (partclone_open ''disk.img'' None omode (sample_sysdep img) sample_abi))"

definition sample_verified :: "sysdep_open_mode \<Rightarrow> byte list \<Rightarrow> pc_context" where
  "sample_verified omode img = snd (projr (partclone_verify (sample_opened omode img)))"

text \<open>
  Two blocks; the usage map holds the byte 2 for block 0 and 1 for block 1. Two stored
  blocks follow, each with its 4-byte checksum.
\<close>

definition img_a :: "byte list" where
  "img_a = sample_image [2, 1] cmagicstr
             [0xA1, 0xA2, 0xA3, 0xA4, 0, 0, 0, 0, 0xB1, 0xB2, 0xB3, 0xB4, 0, 0, 0, 0]"

text \<open>Two blocks, the second one used, and the file ends after the trailing magic.\<close>

definition img_b :: "byte list" where
  "img_b = sample_image [0, 1] cmagicstr []"


text \<open>The image \<open>img_a\<close> cut off after the first byte of its usage map.\<close>

definition img_t :: "byte list" where
  "img_t = take 25 img_a"

text \<open>1024 blocks, all used.\<close>

definition img_k :: "byte list" where
  "img_k = sample_image (replicate 1024 1) cmagicstr []"

text \<open>
  The same backend, except that the write that stores block 1 of a change file fails,
  and the image \<open>img\<close> opened read-write and verified on it.
\<close>

definition sample_sysdep_wfail :: "byte list \<Rightarrow> sysdep_dispatch" where
  "sample_sysdep_wfail img = (sample_sysdep img)\<lparr>sys_cf_write_ok := (\<lambda>n. n \<noteq> 1)\<rparr>"

definition sample_verified_wfail :: "byte list \<Rightarrow> pc_context" where
  "sample_verified_wfail img =
     snd (projr (partclone_verify (the (snd (partclone_open ''disk.img'' None SYSDEP_OPEN_RW
        (sample_sysdep_wfail img) sample_abi)))))"

text \<open>The loops of a two-block read of \<open>img_b\<close> and of a two-block write on that backend.\<close>

definition sample_read_b :: "fault + (int \<times> nat \<times> pc_context \<times> byte list)" where
  "sample_read_b = readblocks_loop 2 0 EINVAL (sample_verified SYSDEP_OPEN_RO img_b)
                     (replicate 4 0xFF @ replicate 4 0xFF) 0"

definition sample_write_wfail :: "fault + (int \<times> nat \<times> pc_context)" where
  "sample_write_wfail = writeblocks_loop 2 0 EINVAL (sample_verified_wfail img_b)
                          [1, 2, 3, 4, 5, 6, 7, 8] 0"

text \<open>
  A session on \<open>img_b\<close> opened read-write: seek to block 1, write one block there,
  seek back to block 1.
\<close>

definition sample_sought :: pc_context where
  "sample_sought = snd (projr (partclone_seek (sample_verified SYSDEP_OPEN_RW img_b) 1))"

definition sample_written :: pc_context where
  "sample_written = snd (projr (partclone_writeblocks sample_sought [0x11, 0x22, 0x33, 0x44] 1))"

definition sample_resought :: pc_context where
  "sample_resought = snd (projr (partclone_seek sample_written 1))"



section \<open>The specification's quantities\<close>

text \<open>
  The number of indices \<open>i < b\<close> with \<open>usage_map[i] == 1\<close>, and the offset formula
  \<open>head_size + N * block_size + (N div blocks_per_checksum) * checksum_size\<close>, as the
  specification words them.
\<close>

definition spec_used_before :: "byte list \<Rightarrow> nat \<Rightarrow> nat" where
  "spec_used_before usage_map b = length (filter (\<lambda>x. x = 1) (take b usage_map))"

definition spec_offset :: "image_head \<Rightarrow> nat \<Rightarrow> nat" where
  "spec_offset h N =
     head_size h + N * block_size h + (N div blocks_per_checksum h) * checksum_size h"

text \<open>
  The CRC as the specification words it. One round folds a byte into the CRC through
  the table. The bug-compatible CRC runs \<open>size\<close> rounds over the buffer's first byte;
  a CRC that walks the buffer runs one round for each of its first \<open>size\<close> bytes.
\<close>

definition spec_crc_round :: "u32 list \<Rightarrow> byte \<Rightarrow> u32 \<Rightarrow> u32" where
  "spec_crc_round tab c crc = drop_bit 8 crc XOR tab ! unat ((crc XOR ucast c) AND 0xff)"

definition spec_crc_first_byte :: "u32 list \<Rightarrow> u32 \<Rightarrow> byte list \<Rightarrow> nat \<Rightarrow> u32" where
  "spec_crc_first_byte tab crc buf sz = (spec_crc_round tab (hd buf) ^^ sz) crc"

definition spec_crc_walking :: "u32 list \<Rightarrow> u32 \<Rightarrow> byte list \<Rightarrow> nat \<Rightarrow> u32" where
  "spec_crc_walking tab crc buf sz = fold (spec_crc_round tab) (take sz buf) crc"

text \<open>
  Two contexts hold the same base image: the bytes of the file behind \<open>pc_fd\<close> and
  the mode it was opened with agree.
\<close>

definition same_base :: "pc_context \<Rightarrow> pc_context \<Rightarrow> bool" where
  "same_base p p' =
     (f_data (pc_fd p') = f_data (pc_fd p) \<and> f_omode (pc_fd p') = f_omode (pc_fd p))"

text \<open>The change file of \<open>p\<close> holds the bytes \<open>d\<close> for block \<open>j\<close>.\<close>

definition overlay_has :: "pc_context \<Rightarrow> nat \<Rightarrow> byte list \<Rightarrow> bool" where
  "overlay_has p j d =
     (case pc_cf_handle p of None \<Rightarrow> False | Some h \<Rightarrow> cfc_blocks h j = Some d)"




section \<open>Properties\<close>

lemmas flag_defs = PC_OPEN_def PC_CF_OPEN_def PC_VERIFIED_def PC_HAVE_CFDEP_def
  PC_HAVE_VERDEP_def PC_HAVE_IVBLOCK_def PC_CF_VERIFIED_def PC_CF_INIT_def
  PC_VERSION_INIT_def PC_HEAD_VALID_def PC_HAVE_PATH_def PC_HAVE_CF_PATH_def PC_VALID_def
  PC_TOLERANT_def PC_READ_ONLY_def

lemmas macro_defs = PCTX_FLAGS_SET_def PCTX_VALID_def PCTX_OPEN_def PCTX_TOLERANT_def
  PCTX_READ_ONLY_def PCTX_VERIFIED_def PCTX_READREADY_def PCTX_CFREADY_def
  PCTX_WRITEABLE_def PCTX_WRITEREADY_def PCTX_HAVE_CF_PATH_def PCTX_HAVE_VERDEP_def

lemmas const_defs = ENOENT_def EIO_def ENOMEM_def EINVAL_def IMAGE_MAGIC_def
  IMAGE_MAGIC_SIZE_def MAGIC_LEN_def CRC_SIZE_def cmagicstr_def cf_trailer_def
  V1_DEFAULT_FACTOR_def VERSION_SIZE_def CF_NO_OVERRIDE_def sizeof_v1_context_def

lemmas sample_defs = sample_view_v1_def sample_view_v2_def sample_abi_def sample_image_def
  sample_sysdep_def

lemmas engine_defs = partclone_open_def partclone_verify_def partclone_seek_def
  partclone_readblocks_def partclone_writeblocks_def partclone_tolerant_mode_def
  v1_init_def v1_verify_def precalculate_sumcount_def v1_seek_def v1_readblock_def
  v1_writeblock_def rblock2offset_def read_into_fresh_def bitmap_at_def sumcount_at_def
  find_version_def version_table_def pc_head_v1_def pc_head_v2_def posix_open_def
  posix_seek_def posix_read_def cf_init_def cf_create_def cf_verify_def cf_seek_def
  cf_readblock_def cf_writeblock_def memcpy_at_def u64_def s64_def set_errno_def

text \<open>Everything needed to run the engine on a sample image inside the simplifier.\<close>

lemmas eval_defs = sample_verified_def sample_opened_def engine_defs sample_defs const_defs
  flag_defs macro_defs sumcount_loop.simps readblocks_loop.simps writeblocks_loop.simps
  seek_loop.simps Let_def

subsection \<open>The bug-compatible CRC\<close>

lemma ucast_byte_mask: "(ucast (c :: byte) :: u32) AND 0xff = ucast c"
proof -
  have "(ucast c :: u32) AND mask 8 = ucast c"
    by (rule bit_eqI) (auto simp: bit_and_iff bit_mask_iff bit_ucast_iff dest: bit_imp_le_length)
  then show ?thesis by (simp add: mask_eq_exp_minus_1)
qed

text \<open>
  The loop of \<open>v1_crc32\<close> on a buffer that is not empty: from round \<open>s\<close> it runs
  the remaining \<open>size - s\<close> rounds, each on the first byte.
\<close>

lemma crc_loop_value:
  "v1_crc32_loop v1p crc (c # rest) sz s
     = Inr ((spec_crc_round (v1_crc_tab32 v1p) c ^^ (sz - s)) crc)"
proof (induction "sz - s" arbitrary: s crc)
  case 0
  then show ?case by (simp add: v1_crc32_loop.simps)
next
  case (Suc n)
  then have lt: "s < sz" and n: "n = sz - (s + 1)" and sn: "sz - s = Suc n" by simp_all
  have "v1_crc32_loop v1p crc (c # rest) sz s
        = v1_crc32_loop v1p (spec_crc_round (v1_crc_tab32 v1p) c crc) (c # rest) sz (s + 1)"
    using lt by (subst v1_crc32_loop.simps) (simp add: Let_def spec_crc_round_def ucast_byte_mask)
  also have "\<dots> = Inr ((spec_crc_round (v1_crc_tab32 v1p) c ^^ n)
                          (spec_crc_round (v1_crc_tab32 v1p) c crc))"
    using Suc.hyps(1) [OF n] by (simp only: n)
  finally show ?case by (simp add: sn funpow_swap1)
qed

lemma v1_crc32_value:
  "v1_crc32 v1p crc (c # rest) sz = Inr (spec_crc_first_byte (v1_crc_tab32 v1p) crc (c # rest) sz)"
  by (simp add: v1_crc32_def crc_loop_value spec_crc_first_byte_def)

lemma crc_tab32_nth: "k < 256 \<Longrightarrow> crc_tab32 ! k = (crc_step ^^ 8) (of_nat k)"
  by (simp add: crc_tab32_def CRC_TABLE_LEN_def CRC_UNIT_BITS_def crc_tab32_entry_def)

lemma funpow4: "(f ^^ 4) x = f (f (f (f x)))"
  by (simp add: eval_nat_numeral)

lemma funpow8: "(f ^^ 8) x = f (f (f (f (f (f (f (f x)))))))"
  by (simp add: eval_nat_numeral)

lemma crc_first_byte_ABCD:
  "spec_crc_first_byte crc_tab32 0xFFFFFFFF [0x41, 0x42, 0x43, 0x44] 4 = 0x64F2F70E"
  by (simp add: spec_crc_first_byte_def spec_crc_round_def funpow4 funpow8 crc_tab32_nth crc_step_def)

lemma crc_walking_ABCD:
  "spec_crc_walking crc_tab32 0xFFFFFFFF [0x41, 0x42, 0x43, 0x44] 4 = 0x24E8DF5A"
  by (simp add: spec_crc_walking_def spec_crc_round_def funpow8 crc_tab32_nth crc_step_def)

lemma sample_crc_table:
  "pc_verdep (sample_verified SYSDEP_OPEN_RO img_a) \<noteq> None
   \<and> v1_crc_tab32 (the (pc_verdep (sample_verified SYSDEP_OPEN_RO img_a))) = crc_tab32"
  by (simp add: eval_defs img_a_def)

text \<open>
  C8. For every table and every initial CRC value, \<open>v1_crc32\<close> of the four bytes
  \<open>"ABCD"\<close> with size 4 equals \<open>v1_crc32\<close> of \<open>"AAAA"\<close> with size 4, and its
  value is four rounds over the first byte \<open>0x41\<close>, which is what a CRC that walks
  the buffer gives for \<open>"AAAA"\<close>. With the table that \<open>v1_init\<close> builds (here in
  the context of the verified image \<open>img_a\<close>) and the initial value \<open>0xFFFFFFFF\<close>
  this is \<open>0x64F2F70E\<close>, where a CRC that walks \<open>"ABCD"\<close> gives \<open>0x24E8DF5A\<close>.
\<close>

theorem C8_v1_crc32_reads_first_byte_only:
  "v1_crc32 v1p crc [0x41, 0x42, 0x43, 0x44] 4 = v1_crc32 v1p crc [0x41, 0x41, 0x41, 0x41] 4
   \<and> v1_crc32 v1p crc [0x41, 0x42, 0x43, 0x44] 4
       = Inr (spec_crc_first_byte (v1_crc_tab32 v1p) crc [0x41, 0x42, 0x43, 0x44] 4)
   \<and> spec_crc_first_byte (v1_crc_tab32 v1p) crc [0x41, 0x42, 0x43, 0x44] 4
       = spec_crc_walking (v1_crc_tab32 v1p) crc [0x41, 0x41, 0x41, 0x41] 4
   \<and> v1_crc32 (the (pc_verdep (sample_verified SYSDEP_OPEN_RO img_a))) 0xFFFFFFFF
         [0x41, 0x42, 0x43, 0x44] 4 = Inr 0x64F2F70E
   \<and> spec_crc_walking (v1_crc_tab32 (the (pc_verdep (sample_verified SYSDEP_OPEN_RO img_a))))
         0xFFFFFFFF [0x41, 0x42, 0x43, 0x44] 4 = 0x24E8DF5A"
proof (intro conjI)
  show "v1_crc32 v1p crc [0x41, 0x42, 0x43, 0x44] 4 = v1_crc32 v1p crc [0x41, 0x41, 0x41, 0x41] 4"
    by (simp add: v1_crc32_value spec_crc_first_byte_def)
  show "v1_crc32 v1p crc [0x41, 0x42, 0x43, 0x44] 4
          = Inr (spec_crc_first_byte (v1_crc_tab32 v1p) crc [0x41, 0x42, 0x43, 0x44] 4)"
    by (rule v1_crc32_value)
  show "spec_crc_first_byte (v1_crc_tab32 v1p) crc [0x41, 0x42, 0x43, 0x44] 4
          = spec_crc_walking (v1_crc_tab32 v1p) crc [0x41, 0x41, 0x41, 0x41] 4"
    by (simp add: spec_crc_walking_def spec_crc_first_byte_def funpow4)
  show "v1_crc32 (the (pc_verdep (sample_verified SYSDEP_OPEN_RO img_a))) 0xFFFFFFFF
          [0x41, 0x42, 0x43, 0x44] 4 = Inr 0x64F2F70E"
    by (simp only: v1_crc32_value sample_crc_table crc_first_byte_ABCD)
  show "spec_crc_walking (v1_crc_tab32 (the (pc_verdep (sample_verified SYSDEP_OPEN_RO img_a))))
          0xFFFFFFFF [0x41, 0x42, 0x43, 0x44] 4 = 0x24E8DF5A"
    by (simp only: sample_crc_table crc_walking_ABCD)
qed

subsection \<open>State flags\<close>






text \<open>Setting \<open>errno\<close> changes nothing else.\<close>

lemma set_errno_fields [simp]:
  "pc_flags (set_errno e p) = pc_flags p"
  "pc_sysdep (set_errno e p) = pc_sysdep p"
  "pc_abi (set_errno e p) = pc_abi p"
  "pc_path (set_errno e p) = pc_path p"
  "pc_cf_path (set_errno e p) = pc_cf_path p"
  "pc_omode (set_errno e p) = pc_omode p"
  "pc_head_raw (set_errno e p) = pc_head_raw p"
  "pc_head (set_errno e p) = pc_head p"
  "pc_curblock (set_errno e p) = pc_curblock p"
  "pc_verdep (set_errno e p) = pc_verdep p"
  "pc_cf_handle (set_errno e p) = pc_cf_handle p"
  "pc_ivblock (set_errno e p) = pc_ivblock p"
  "pc_dispatch (set_errno e p) = pc_dispatch p"
  "f_data (pc_fd (set_errno e p)) = f_data (pc_fd p)"
  "f_pos (pc_fd (set_errno e p)) = f_pos (pc_fd p)"
  "f_omode (pc_fd (set_errno e p)) = f_omode (pc_fd p)"
  "f_errno (pc_fd (set_errno e p)) = e"
  by (simp_all add: set_errno_def)

lemma set_errno_macros [simp]:
  "PCTX_FLAGS_SET (set_errno e p) f = PCTX_FLAGS_SET p f"
  "PCTX_VALID (set_errno e p) = PCTX_VALID p"
  "PCTX_OPEN (set_errno e p) = PCTX_OPEN p"
  "PCTX_READ_ONLY (set_errno e p) = PCTX_READ_ONLY p"
  "PCTX_READREADY (set_errno e p) = PCTX_READREADY p"
  "PCTX_CFREADY (set_errno e p) = PCTX_CFREADY p"
  "PCTX_WRITEABLE (set_errno e p) = PCTX_WRITEABLE p"
  "PCTX_WRITEREADY (set_errno e p) = PCTX_WRITEREADY p"
  "PCTX_HAVE_CF_PATH (set_errno e p) = PCTX_HAVE_CF_PATH p"
  "PCTX_HAVE_VERDEP (set_errno e p) = PCTX_HAVE_VERDEP p"
  by (simp_all add: macro_defs)

subsection \<open>Batches of blocks and the cursor\<close>

lemma v1_readblock_keeps:
  "v1_readblock p buf cbp = Inr (e, p1, b1) \<Longrightarrow>
     pc_curblock p1 = pc_curblock p \<and> pc_head p1 = pc_head p \<and> pc_dispatch p1 = pc_dispatch p
     \<and> pc_flags p1 = pc_flags p \<and> (pc_verdep p1 = None) = (pc_verdep p = None)
     \<and> (\<forall>j d. overlay_has p1 j d = overlay_has p j d)"
  by (auto simp: v1_readblock_def cf_seek_def cf_readblock_def posix_seek_def posix_read_def Let_def
      overlay_has_def
      split: if_splits option.splits sum.splits prod.splits)

lemma version_readblock_keeps:
  "version_readblock d p buf cbp = Inr (e, p1, b1) \<Longrightarrow>
     pc_curblock p1 = pc_curblock p \<and> pc_head p1 = pc_head p \<and> pc_dispatch p1 = pc_dispatch p
     \<and> pc_flags p1 = pc_flags p \<and> (pc_verdep p1 = None) = (pc_verdep p = None)
     \<and> (\<forall>j d. overlay_has p1 j d = overlay_has p j d)"
  by (cases d) (simp_all add: v1_readblock_keeps)

lemma v1_writeblock_keeps:
  "v1_writeblock p buf cbp = (e, p1) \<Longrightarrow>
     pc_curblock p1 = pc_curblock p \<and> pc_head p1 = pc_head p \<and> pc_dispatch p1 = pc_dispatch p"
  by (auto simp: v1_writeblock_def cf_seek_def cf_writeblock_def cf_create_def Let_def
      split: if_splits option.splits sum.splits prod.splits)

lemma version_writeblock_keeps:
  "version_writeblock d p buf cbp = (e, p1) \<Longrightarrow>
     pc_curblock p1 = pc_curblock p \<and> pc_head p1 = pc_head p \<and> pc_dispatch p1 = pc_dispatch p"
  by (cases d) (simp_all add: v1_writeblock_keeps)

lemma readblocks_loop_cursor:
  "readblocks_loop n i e0 p buf cbp = Inr (e, k, p', buf') \<Longrightarrow> i \<le> n \<Longrightarrow>
   pc_curblock p + (n - i) < 2 ^ 64 \<Longrightarrow>
     i \<le> k \<and> k \<le> n \<and> pc_curblock p' = pc_curblock p + (k - i)
     \<and> (i < n \<longrightarrow> (e = 0) = (k = n))"
proof (induction "n - i" arbitrary: i e0 p buf cbp)
  case 0
  then show ?case by (simp add: readblocks_loop.simps)
next
  case (Suc m)
  then have lt: "i < n" by simp
  from lt Suc.prems(1) obtain d where d: "pc_dispatch p = Some d"
    by (auto simp: readblocks_loop.simps split: option.splits)
  from lt d Suc.prems(1) obtain e1 p1 buf1
    where rb: "version_readblock d p buf cbp = Inr (e1, p1, buf1)"
    by (auto simp: readblocks_loop.simps split: sum.splits)
  note keep = version_readblock_keeps [OF rb]
  show ?case
  proof (cases "e1 = 0")
    case False
    with lt d rb Suc.prems keep show ?thesis
      by (auto simp: readblocks_loop.simps)
  next
    case e1: True
    let ?q = "p1\<lparr>pc_curblock := u64 (pc_curblock p1 + 1)\<rparr>"
    from lt Suc.prems(3) keep have cur: "pc_curblock ?q = pc_curblock p + 1"
      by (simp add: u64_def)
    from lt d rb e1 Suc.prems(1)
    have rec: "readblocks_loop n (i + 1) e1 ?q buf1 (cbp + block_size (pc_head p1))
               = Inr (e, k, p', buf')"
      by (simp add: readblocks_loop.simps)
    have m: "m = n - (i + 1)" using Suc.hyps(2) by simp
    have ih: "i + 1 \<le> k \<and> k \<le> n \<and> pc_curblock p' = pc_curblock ?q + (k - (i + 1))
          \<and> (i + 1 < n \<longrightarrow> (e = 0) = (k = n))"
      using Suc.hyps(1) [OF m rec] lt Suc.prems(3) cur by simp
    moreover have "i + 1 = n \<Longrightarrow> e = 0 \<and> k = n"
      using rec e1 by (simp add: readblocks_loop.simps)
    ultimately show ?thesis using cur lt by auto
  qed
qed

lemma writeblocks_loop_cursor:
  "writeblocks_loop n i e0 p buf cbp = Inr (e, k, p') \<Longrightarrow> i \<le> n \<Longrightarrow>
   pc_curblock p + (n - i) < 2 ^ 64 \<Longrightarrow>
     i \<le> k \<and> k \<le> n \<and> pc_curblock p' = pc_curblock p + (k - i)
     \<and> (i < n \<longrightarrow> (e = 0) = (k = n))"
proof (induction "n - i" arbitrary: i e0 p cbp)
  case 0
  then show ?case by (simp add: writeblocks_loop.simps)
next
  case (Suc m)
  then have lt: "i < n" by simp
  from lt Suc.prems(1) obtain d where d: "pc_dispatch p = Some d"
    by (auto simp: writeblocks_loop.simps split: option.splits)
  obtain e1 p1 where wb: "version_writeblock d p buf cbp = (e1, p1)"
    by (cases "version_writeblock d p buf cbp")
  note keep = version_writeblock_keeps [OF wb]
  show ?case
  proof (cases "e1 = 0")
    case False
    with lt d wb Suc.prems keep show ?thesis
      by (auto simp: writeblocks_loop.simps)
  next
    case e1: True
    let ?q = "p1\<lparr>pc_curblock := u64 (pc_curblock p1 + 1)\<rparr>"
    from lt Suc.prems(3) keep have cur: "pc_curblock ?q = pc_curblock p + 1"
      by (simp add: u64_def)
    from lt d wb e1 Suc.prems(1)
    have rec: "writeblocks_loop n (i + 1) e1 ?q buf (cbp + block_size (pc_head p1))
               = Inr (e, k, p')"
      by (simp add: writeblocks_loop.simps)
    have m: "m = n - (i + 1)" using Suc.hyps(2) by simp
    have ih: "i + 1 \<le> k \<and> k \<le> n \<and> pc_curblock p' = pc_curblock ?q + (k - (i + 1))
          \<and> (i + 1 < n \<longrightarrow> (e = 0) = (k = n))"
      using Suc.hyps(1) [OF m rec] lt Suc.prems(3) cur by simp
    moreover have "i + 1 = n \<Longrightarrow> e = 0 \<and> k = n"
      using rec e1 by (simp add: writeblocks_loop.simps)
    ultimately show ?thesis using cur lt by auto
  qed
qed

text \<open>
  C10. On a read-ready context \<open>partclone_readblocks\<close> with \<open>nblocks = 0\<close> returns
  \<open>EINVAL\<close>, and on a writeable context \<open>partclone_writeblocks\<close> with
  \<open>nblocks = 0\<close> returns \<open>EINVAL\<close>; context and buffer are unchanged.
\<close>

theorem C10_zero_block_batch_is_EINVAL:
  "(PCTX_READREADY pcp \<longrightarrow> partclone_readblocks pcp buffer 0 = Inr (EINVAL, pcp, buffer))
   \<and> (PCTX_WRITEABLE wpcp \<longrightarrow> partclone_writeblocks wpcp wbuffer 0 = Inr (EINVAL, wpcp))"
  by (simp add: partclone_readblocks_def partclone_writeblocks_def
      readblocks_loop.simps writeblocks_loop.simps)

text \<open>
  Witness for C10: the image \<open>img_b\<close>, opened read-write and verified, is read-ready
  and writeable.
\<close>

theorem C10_zero_block_batch_witness:
  "PCTX_READREADY (sample_verified SYSDEP_OPEN_RW img_b)
   \<and> partclone_readblocks (sample_verified SYSDEP_OPEN_RW img_b) [7, 7, 7, 7] 0
       = Inr (EINVAL, sample_verified SYSDEP_OPEN_RW img_b, [7, 7, 7, 7])
   \<and> PCTX_WRITEABLE (sample_verified SYSDEP_OPEN_RW img_b)
   \<and> partclone_writeblocks (sample_verified SYSDEP_OPEN_RW img_b) [7, 7, 7, 7] 0
       = Inr (EINVAL, sample_verified SYSDEP_OPEN_RW img_b)"
proof -
  have r: "PCTX_READREADY (sample_verified SYSDEP_OPEN_RW img_b)"
    and w: "PCTX_WRITEABLE (sample_verified SYSDEP_OPEN_RW img_b)"
    by (simp_all add: eval_defs img_b_def)
  from r w C10_zero_block_batch_is_EINVAL
    [of "sample_verified SYSDEP_OPEN_RW img_b" "[7, 7, 7, 7]"
        "sample_verified SYSDEP_OPEN_RW img_b" "[7, 7, 7, 7]"]
  show ?thesis by simp
qed

text \<open>
  C4, as the code has it. When a batch of at least one block ends with an error after
  \<open>bindex\<close> blocks went through, \<open>partclone_readblocks\<close> (and likewise
  \<open>partclone_writeblocks\<close>) returns that error and leaves \<open>pc_curblock\<close> at its
  value before the call plus \<open>bindex\<close>: the cursor rests on the block that failed.
\<close>

theorem C4_cursor_rests_on_failed_block:
  "(PCTX_READREADY pcp \<and> 0 < nblocks \<and> pc_curblock pcp + nblocks < 2 ^ 64
      \<and> readblocks_loop nblocks 0 EINVAL pcp buffer 0 = Inr (error, bindex, pcp', buffer')
      \<and> error \<noteq> 0
    \<longrightarrow> partclone_readblocks pcp buffer nblocks = Inr (error, pcp', buffer')
        \<and> bindex < nblocks \<and> pc_curblock pcp' = pc_curblock pcp + bindex)
   \<and> (PCTX_WRITEABLE wpcp \<and> 0 < wnblocks \<and> pc_curblock wpcp + wnblocks < 2 ^ 64
      \<and> writeblocks_loop wnblocks 0 EINVAL wpcp wbuffer 0 = Inr (werror, wbindex, wpcp')
      \<and> werror \<noteq> 0
    \<longrightarrow> partclone_writeblocks wpcp wbuffer wnblocks = Inr (werror, wpcp')
        \<and> wbindex < wnblocks \<and> pc_curblock wpcp' = pc_curblock wpcp + wbindex)"
proof (intro conjI impI)
  assume a: "PCTX_READREADY pcp \<and> 0 < nblocks \<and> pc_curblock pcp + nblocks < 2 ^ 64
      \<and> readblocks_loop nblocks 0 EINVAL pcp buffer 0 = Inr (error, bindex, pcp', buffer')
      \<and> error \<noteq> 0"
  then show "partclone_readblocks pcp buffer nblocks = Inr (error, pcp', buffer')"
    by (simp add: partclone_readblocks_def)
  from a readblocks_loop_cursor [of nblocks 0 EINVAL pcp buffer 0 error bindex pcp' buffer']
  show "bindex < nblocks" and "pc_curblock pcp' = pc_curblock pcp + bindex"
    by auto
next
  assume a: "PCTX_WRITEABLE wpcp \<and> 0 < wnblocks \<and> pc_curblock wpcp + wnblocks < 2 ^ 64
      \<and> writeblocks_loop wnblocks 0 EINVAL wpcp wbuffer 0 = Inr (werror, wbindex, wpcp')
      \<and> werror \<noteq> 0"
  then show "partclone_writeblocks wpcp wbuffer wnblocks = Inr (werror, wpcp')"
    by (simp add: partclone_writeblocks_def)
  from a writeblocks_loop_cursor [of wnblocks 0 EINVAL wpcp wbuffer 0 werror wbindex wpcp']
  show "wbindex < wnblocks" and "pc_curblock wpcp' = pc_curblock wpcp + wbindex"
    by auto
qed

text \<open>
  Witness for C4: the two-block read of \<open>img_b\<close> (block 0 is not used and is
  zero-filled, block 1 is used and the file ends before it: \<open>EIO\<close> with
  \<open>bindex = 1\<close>), and a two-block write where the change file takes block 0 and
  the write that stores block 1 fails (\<open>EIO\<close> with \<open>bindex = 1\<close>, block 0 is in
  the change file).
\<close>

theorem C4_cursor_witness:
  "PCTX_READREADY (sample_verified SYSDEP_OPEN_RO img_b)
   \<and> sample_read_b = Inr (EIO, 1, fst (snd (snd (projr sample_read_b))), snd (snd (snd (projr sample_read_b))))
   \<and> partclone_readblocks (sample_verified SYSDEP_OPEN_RO img_b) (replicate 4 0xFF @ replicate 4 0xFF) 2
       = Inr (EIO, fst (snd (snd (projr sample_read_b))), snd (snd (snd (projr sample_read_b))))
   \<and> pc_curblock (fst (snd (snd (projr sample_read_b))))
       = pc_curblock (sample_verified SYSDEP_OPEN_RO img_b) + 1
   \<and> PCTX_WRITEABLE (sample_verified_wfail img_b)
   \<and> sample_write_wfail = Inr (EIO, 1, snd (snd (projr sample_write_wfail)))
   \<and> partclone_writeblocks (sample_verified_wfail img_b) [1, 2, 3, 4, 5, 6, 7, 8] 2
       = Inr (EIO, snd (snd (projr sample_write_wfail)))
   \<and> pc_curblock (snd (snd (projr sample_write_wfail))) = pc_curblock (sample_verified_wfail img_b) + 1
   \<and> overlay_has (snd (snd (projr sample_write_wfail))) 0 [1, 2, 3, 4]"
proof -
  have r: "PCTX_READREADY (sample_verified SYSDEP_OPEN_RO img_b)"
    and c: "pc_curblock (sample_verified SYSDEP_OPEN_RO img_b) + 2 < 2 ^ 64"
    and l: "readblocks_loop 2 0 EINVAL (sample_verified SYSDEP_OPEN_RO img_b)
              (replicate 4 0xFF @ replicate 4 0xFF) 0
            = Inr (EIO, 1, fst (snd (snd (projr sample_read_b))), snd (snd (snd (projr sample_read_b))))"
    by (simp_all add: sample_read_b_def eval_defs img_b_def)
  have w: "PCTX_WRITEABLE (sample_verified_wfail img_b)"
    and wc: "pc_curblock (sample_verified_wfail img_b) + 2 < 2 ^ 64"
    and wl: "writeblocks_loop 2 0 EINVAL (sample_verified_wfail img_b) [1, 2, 3, 4, 5, 6, 7, 8] 0
            = Inr (EIO, 1, snd (snd (projr sample_write_wfail)))"
    and wo: "overlay_has (snd (snd (projr sample_write_wfail))) 0 [1, 2, 3, 4]"
    by (simp_all add: sample_write_wfail_def sample_verified_wfail_def sample_sysdep_wfail_def
        overlay_has_def eval_defs img_b_def)
  from r c l w wc wl wo C4_cursor_rests_on_failed_block
    [where pcp = "sample_verified SYSDEP_OPEN_RO img_b" and nblocks = 2
       and buffer = "replicate 4 0xFF @ replicate 4 0xFF" and error = EIO and bindex = 1
       and pcp' = "fst (snd (snd (projr sample_read_b)))"
       and buffer' = "snd (snd (snd (projr sample_read_b)))"
       and wpcp = "sample_verified_wfail img_b" and wnblocks = 2
       and wbuffer = "[1, 2, 3, 4, 5, 6, 7, 8]"
       and werror = EIO and wbindex = 1 and wpcp' = "snd (snd (projr sample_write_wfail))"]
  show ?thesis
    by (simp add: sample_read_b_def sample_write_wfail_def EIO_def)
qed

text \<open>
  Counterexample to C4 as stated: the two-block read of \<open>img_b\<close> from cursor 0
  returns \<open>EIO\<close> after one block, the first four bytes of the buffer are written,
  and \<open>pc_curblock\<close> is 1, not its value 0 from before the call.
\<close>

theorem C4_counterexample:
  "partclone_verify (sample_opened SYSDEP_OPEN_RO img_b)
       = Inr (0, sample_verified SYSDEP_OPEN_RO img_b)
   \<and> PCTX_READREADY (sample_verified SYSDEP_OPEN_RO img_b)
   \<and> pc_curblock (sample_verified SYSDEP_OPEN_RO img_b) = 0
   \<and> \<not> isl (partclone_readblocks (sample_verified SYSDEP_OPEN_RO img_b) (replicate 8 0xFF) 2)
   \<and> fst (projr (partclone_readblocks (sample_verified SYSDEP_OPEN_RO img_b) (replicate 8 0xFF) 2)) = EIO
   \<and> snd (snd (projr (partclone_readblocks (sample_verified SYSDEP_OPEN_RO img_b) (replicate 8 0xFF) 2)))
       = replicate 4 0 @ replicate 4 0xFF
   \<and> pc_curblock (fst (snd (projr (partclone_readblocks (sample_verified SYSDEP_OPEN_RO img_b)
        (replicate 8 0xFF) 2)))) = 1"
  by (simp add: eval_defs img_b_def)

subsection \<open>Tolerant mode\<close>






text \<open>
  A short read is reported with the value \<open>errno\<close> holds, whoever left it: the
  image \<open>img_t\<close> ends inside its usage map, \<open>errno\<close> was 25 when it was opened,
  and \<open>partclone_verify\<close> returns 25.
\<close>

lemma verify_returns_stale_errno:
  "fst (projr (partclone_verify (sample_opened SYSDEP_OPEN_RO img_t))) = 25
   \<and> sys_errno (sample_sysdep img_t) = 25
   \<and> length img_t = 25
   \<and> h1_totalblock (pc_head_v1 (snd (projr (partclone_verify (sample_opened SYSDEP_OPEN_RO img_t))))) = 2"
  by (simp add: eval_defs img_t_def img_a_def)

subsection \<open>Usage-map bytes other than 0 and 1, and the end of the usage map\<close>

text \<open>
  C1 at the image \<open>img_a\<close>, whose usage map is \<open>[2, 1]\<close>. No index below 1 holds
  the value 1, so the specification's offset for block 1 is \<open>head_size = 34\<close>.
  \<open>v1_seek\<close> counts the byte 2: after \<open>partclone_seek\<close> to block 1 the walking
  count is 1, block 1 is read at offset \<open>34 + 4 + 4 = 42\<close>, and the caller gets the
  bytes stored there.
\<close>

theorem C1_seek_counts_bytes_other_than_one:
  "partclone_verify (sample_opened SYSDEP_OPEN_RO img_a)
       = Inr (0, sample_verified SYSDEP_OPEN_RO img_a)
   \<and> v1_bitmap (the (pc_verdep (sample_verified SYSDEP_OPEN_RO img_a))) = Some [2, 1]
   \<and> spec_used_before [2, 1] 1 = 0
   \<and> spec_offset (pc_head (sample_verified SYSDEP_OPEN_RO img_a)) (spec_used_before [2, 1] 1) = 34
   \<and> \<not> isl (partclone_seek (sample_verified SYSDEP_OPEN_RO img_a) 1)
   \<and> fst (projr (partclone_seek (sample_verified SYSDEP_OPEN_RO img_a) 1)) = 0
   \<and> v1_nvbcount (the (pc_verdep (snd (projr (partclone_seek (sample_verified SYSDEP_OPEN_RO img_a) 1))))) = 1
   \<and> rblock2offset (snd (projr (partclone_seek (sample_verified SYSDEP_OPEN_RO img_a) 1))) 1 = 42
   \<and> \<not> isl (partclone_readblocks (snd (projr (partclone_seek (sample_verified SYSDEP_OPEN_RO img_a) 1)))
        [0, 0, 0, 0] 1)
   \<and> snd (snd (projr (partclone_readblocks
        (snd (projr (partclone_seek (sample_verified SYSDEP_OPEN_RO img_a) 1))) [0, 0, 0, 0] 1)))
       = [0xB1, 0xB2, 0xB3, 0xB4]
   \<and> take 4 (drop 34 img_a) = [0xA1, 0xA2, 0xA3, 0xA4]
   \<and> take 4 (drop 42 img_a) = [0xB1, 0xB2, 0xB3, 0xB4]"
  by (simp add: eval_defs img_a_def spec_used_before_def spec_offset_def)

text \<open>
  C2 at the image \<open>img_a\<close>: block 0 has the usage byte 2 and there is no change
  file. \<open>v1_readblock\<close> tests the byte for non-zero, reads four bytes of the image at
  offset 34 and returns them; the buffer is not zero-filled.
\<close>

theorem C2_byte_other_than_one_is_read_from_image:
  "partclone_verify (sample_opened SYSDEP_OPEN_RO img_a)
       = Inr (0, sample_verified SYSDEP_OPEN_RO img_a)
   \<and> v1_bitmap (the (pc_verdep (sample_verified SYSDEP_OPEN_RO img_a))) = Some [2, 1]
   \<and> pc_cf_handle (sample_verified SYSDEP_OPEN_RO img_a) = None
   \<and> pc_curblock (sample_verified SYSDEP_OPEN_RO img_a) = 0
   \<and> block_size (pc_head (sample_verified SYSDEP_OPEN_RO img_a)) = 4
   \<and> partclone_readblocks (sample_verified SYSDEP_OPEN_RO img_a) [0, 0, 0, 0] 1
       = Inr (0, fst (snd (projr (partclone_readblocks (sample_verified SYSDEP_OPEN_RO img_a) [0, 0, 0, 0] 1))),
              [0xA1, 0xA2, 0xA3, 0xA4])"
  by (simp add: eval_defs img_a_def)

text \<open>
  C7 at the image \<open>img_b\<close> (two blocks): \<open>partclone_seek\<close> to block 2 succeeds,
  and a one-block read from there evaluates \<open>v1_bitmap[2]\<close>, outside the two bytes
  of the usage map; no comparison of \<open>pc_curblock\<close> with \<open>totalblock\<close> precedes it.
\<close>

theorem C7_read_at_end_indexes_past_usage_map:
  "partclone_open ''disk.img'' None SYSDEP_OPEN_RO (sample_sysdep img_b) sample_abi
     = (0, Some (sample_opened SYSDEP_OPEN_RO img_b))
   \<and> partclone_verify (sample_opened SYSDEP_OPEN_RO img_b)
       = Inr (0, sample_verified SYSDEP_OPEN_RO img_b)
   \<and> PCTX_READREADY (sample_verified SYSDEP_OPEN_RO img_b)
   \<and> totalblock (pc_head (sample_verified SYSDEP_OPEN_RO img_b)) = 2
   \<and> v1_bitmap (the (pc_verdep (sample_verified SYSDEP_OPEN_RO img_b))) = Some [0, 1]
   \<and> \<not> isl (partclone_seek (sample_verified SYSDEP_OPEN_RO img_b) 2)
   \<and> fst (projr (partclone_seek (sample_verified SYSDEP_OPEN_RO img_b) 2)) = 0
   \<and> pc_curblock (snd (projr (partclone_seek (sample_verified SYSDEP_OPEN_RO img_b) 2))) = 2
   \<and> partclone_readblocks (snd (projr (partclone_seek (sample_verified SYSDEP_OPEN_RO img_b) 2)))
        (replicate 4 0xFF) 1 = Inl (Out_Of_Bounds 2 2)"
  by (simp add: eval_defs img_b_def)

subsection \<open>The prefix counts\<close>

lemma and_low_mask_eq_mod: "(i AND (2 ^ f - 1) = 0) = (i mod 2 ^ f = 0)" for i :: nat
proof -
  have "i AND (2 ^ f - 1) = i AND mask f"
    by (simp only: mask_eq_exp_minus_1)
  also have "\<dots> = take_bit f i"
    by (simp only: take_bit_eq_mask)
  finally show ?thesis
    by (simp only: take_bit_eq_mod)
qed

lemma spec_used_before_Suc:
  "i < length bm \<Longrightarrow>
     spec_used_before bm (Suc i) = (if bm ! i = 1 then Suc (spec_used_before bm i) else spec_used_before bm i)"
  by (simp add: spec_used_before_def take_Suc_conv_app_nth)

lemma sumcount_loop_step:
  assumes "v1_bitmap v = Some bm" and "i < tb" and "i < length bm"
  shows "sumcount_loop v tb i nset sc
         = sumcount_loop v tb (Suc i) (if bm ! i = 1 then Suc nset else nset)
             (if i mod 2 ^ v1_bitmap_factor v = 0
              then sc[i div 2 ^ v1_bitmap_factor v := nset] else sc)"
proof -
  have "sumcount_loop v tb i nset sc
        = sumcount_loop v tb (i + 1) (if bm ! i = 1 then nset + 1 else nset)
            (if i AND (2 ^ v1_bitmap_factor v - 1) = 0
             then sc[drop_bit (v1_bitmap_factor v) i := nset] else sc)"
    using assms by (subst sumcount_loop.simps) (simp add: bitmap_at_def Let_def)
  then show ?thesis
    by (simp only: and_low_mask_eq_mod drop_bit_eq_div Suc_eq_plus1)
qed

lemma sumcount_loop_spec:
  assumes bm: "v1_bitmap v = Some bm" and len: "tb \<le> length bm"
  shows "i \<le> tb \<Longrightarrow> nset = spec_used_before bm i \<Longrightarrow>
     \<exists>sc'. sumcount_loop v tb i nset sc = Inr sc' \<and> length sc' = length sc
       \<and> (\<forall>k < length sc. sc' ! k =
             (if i \<le> k * 2 ^ v1_bitmap_factor v \<and> k * 2 ^ v1_bitmap_factor v < tb
              then spec_used_before bm (k * 2 ^ v1_bitmap_factor v) else sc ! k))"
proof (induction "tb - i" arbitrary: i nset sc)
  case 0
  then show ?case by (simp add: sumcount_loop.simps)
next
  case (Suc m)
  let ?S = "2 ^ v1_bitmap_factor v :: nat"
  from Suc have lt: "i < tb" by simp
  with len have ilen: "i < length bm" by simp
  let ?sc1 = "if i mod ?S = 0 then sc[i div ?S := nset] else sc"
  let ?n1 = "if bm ! i = 1 then Suc nset else nset"
  note step = sumcount_loop_step [OF bm lt ilen, of nset sc]
  have n1: "?n1 = spec_used_before bm (Suc i)"
    using ilen Suc.prems(2) by (simp add: spec_used_before_Suc)
  have m: "m = tb - Suc i" using Suc.hyps(2) by simp
  have le: "Suc i \<le> tb" using lt by simp
  from Suc.hyps(1) [OF m le n1, of ?sc1]
  obtain sc' where sc': "sumcount_loop v tb (Suc i) ?n1 ?sc1 = Inr sc'"
      "length sc' = length sc"
      "\<And>k. k < length sc \<Longrightarrow> sc' ! k =
             (if Suc i \<le> k * ?S \<and> k * ?S < tb
              then spec_used_before bm (k * ?S) else ?sc1 ! k)"
    by auto
  have "sc' ! k = (if i \<le> k * ?S \<and> k * ?S < tb
              then spec_used_before bm (k * ?S) else sc ! k)" if k: "k < length sc" for k
  proof (cases "k * ?S = i")
    case True
    then have "i mod ?S = 0" and "i div ?S = k"
      by auto
    with True k lt sc'(3) [OF k] Suc.prems(2) show ?thesis
      by simp
  next
    case False
    have "?sc1 ! k = sc ! k"
    proof (cases "i mod ?S = 0")
      case True
      with False have "i div ?S \<noteq> k"
        by auto
      with True show ?thesis by simp
    next
      case False
      then show ?thesis by simp
    qed
    moreover from False have "(Suc i \<le> k * ?S) = (i \<le> k * ?S)" by auto
    ultimately show ?thesis using sc'(3) [OF k] by simp
  qed
  with sc'(1,2) step show ?case by simp
qed

lemma sumcount_loop_img_k:
  assumes "v1_bitmap v = Some (replicate 1024 1)" and "v1_bitmap_factor v = 10"
  shows "sumcount_loop v 1024 0 0 [a, b] = Inr [0, b]"
proof -
  from sumcount_loop_spec [OF assms(1), of 1024 0 0 "[a, b]"] assms(2)
  obtain sc' where sc': "sumcount_loop v 1024 0 0 [a, b] = Inr sc'" "length sc' = 2"
      "\<forall>k < 2. sc' ! k = (if k * 1024 < 1024 then spec_used_before (replicate 1024 1) (k * 1024)
                           else [a, b] ! k)"
    by (auto simp: spec_used_before_def)
  from sc'(3) have "sc' ! 0 = 0" and "sc' ! 1 = b"
    by (simp_all add: spec_used_before_def)
  with sc'(2) have "sc' = [0, b]"
    by (auto simp: list_eq_iff_nth_eq less_Suc_eq numeral_2_eq_2)
  with sc'(1) show ?thesis by simp
qed

text \<open>
  What \<open>precalculate_sumcount\<close> leaves in the array: the count of bytes equal to 1
  below every stride boundary that lies below \<open>totalblock\<close>, and the allocation's
  initial contents in the cell of a boundary at \<open>totalblock\<close>.
\<close>

lemma precalculate_sumcount_entries:
  assumes v: "pc_verdep p = Some v" and bm: "v1_bitmap v = Some bm"
    and len: "length bm = totalblock (pc_head p)"
    and f: "f = v1_bitmap_factor v" and tb: "tb = totalblock (pc_head p)"
    and ok: "sys_malloc_ok (pc_sysdep p) ((tb div 2 ^ f + 1) * 8)"
  shows "\<exists>e p' v' sc. precalculate_sumcount p = Inr (e, p') \<and> pc_verdep p' = Some v'
           \<and> v1_sumcount v' = Some sc \<and> v1_bitmap v' = Some bm \<and> v1_bitmap_factor v' = f
           \<and> totalblock (pc_head p') = tb
           \<and> length sc = tb div 2 ^ f + 1
           \<and> (\<forall>k. k * 2 ^ f < tb \<longrightarrow> sc ! k = spec_used_before bm (k * 2 ^ f))
           \<and> (\<forall>k. k \<le> tb div 2 ^ f \<and> tb \<le> k * 2 ^ f \<longrightarrow> sc ! k = sys_junk64 (pc_sysdep p) k)"
proof -
  let ?n = "tb div 2 ^ f + 1"
  let ?sc0 = "map (sys_junk64 (pc_sysdep p)) [0..<?n]"
  from sumcount_loop_spec [OF bm, of tb 0 0 ?sc0] len tb f
  obtain sc where sc: "sumcount_loop v tb 0 0 ?sc0 = Inr sc" "length sc = ?n"
      "\<And>k. k < ?n \<Longrightarrow> sc ! k = (if k * 2 ^ f < tb then spec_used_before bm (k * 2 ^ f)
                                     else ?sc0 ! k)"
    by (auto simp: spec_used_before_def)
  have in_range: "k < ?n" if "k * 2 ^ f < tb" for k
  proof -
    from that have "k * 2 ^ f div 2 ^ f \<le> tb div 2 ^ f" by (intro div_le_mono) simp
    then show ?thesis by simp
  qed
  have a: "\<forall>k. k * 2 ^ f < tb \<longrightarrow> sc ! k = spec_used_before bm (k * 2 ^ f)"
    using sc(3) in_range by auto
  have b: "\<forall>k. k \<le> tb div 2 ^ f \<and> tb \<le> k * 2 ^ f \<longrightarrow> sc ! k = sys_junk64 (pc_sysdep p) k"
  proof (intro allI impI)
    fix k
    assume k: "k \<le> tb div 2 ^ f \<and> tb \<le> k * 2 ^ f"
    then have kn: "k < ?n" by simp
    from sc(3) [OF kn] k have "sc ! k = ?sc0 ! k" by simp
    also have "\<dots> = sys_junk64 (pc_sysdep p) k"
      using kn by (simp only: nth_map_upt) simp
    finally show "sc ! k = sys_junk64 (pc_sysdep p) k" .
  qed
  from v sc(1,2) ok a b bm f tb show ?thesis
    by (auto simp: precalculate_sumcount_def Let_def drop_bit_eq_div split: if_splits)
qed

lemmas eval_defs_k = sample_verified_def sample_opened_def engine_defs sample_defs const_defs
  flag_defs macro_defs Let_def

text \<open>
  C5 at the image \<open>img_k\<close>: 1024 blocks, all used, so \<open>k = 1\<close> is a stride boundary
  with \<open>k * 2 ^ 10 \<le> total_blocks\<close> and 1024 used blocks lie before it. Verify
  succeeds; the array has the two cells \<open>(1024 >> 10) + 1\<close>, the loop runs for
  \<open>i < 1024\<close> and stores at \<open>i = 0\<close> only: cell 1 still holds what \<open>malloc\<close>
  returned.
\<close>

theorem C5_boundary_entry_at_total_blocks_is_never_written:
  "partclone_verify (sample_opened SYSDEP_OPEN_RO img_k)
     = Inr (0, sample_verified SYSDEP_OPEN_RO img_k)
   \<and> totalblock (pc_head (sample_verified SYSDEP_OPEN_RO img_k)) = 1 * 2 ^ 10
   \<and> v1_bitmap_factor (the (pc_verdep (sample_verified SYSDEP_OPEN_RO img_k))) = 10
   \<and> v1_bitmap (the (pc_verdep (sample_verified SYSDEP_OPEN_RO img_k))) = Some (replicate 1024 1)
   \<and> spec_used_before (replicate 1024 1) (1 * 2 ^ 10) = 1024
   \<and> sys_junk64 (sample_sysdep img_k) 1 = 0xDEADBEEF
   \<and> v1_sumcount (the (pc_verdep (sample_verified SYSDEP_OPEN_RO img_k))) = Some [0, 0xDEADBEEF]"
  by (simp add:  eval_defs_k img_k_def sumcount_loop_img_k spec_used_before_def)

subsection \<open>Usage maps that hold only 0 and 1\<close>

text \<open>
  Where every byte of the usage map is 0 or 1, as after \<open>v2_verify\<close>, the truth
  test of \<open>v1_seek\<close> and the comparison with 1 of \<open>precalculate_sumcount\<close>
  agree: a seek to a block below \<open>totalblock\<close> sets the walking count to the number
  of used blocks before it, and \<open>rblock2offset\<close> is the specification's formula in
  64-bit arithmetic. A block whose byte is 0 reads as zeros.
\<close>

lemma u64_u64_add: "u64 (u64 a + b) = u64 (a + b)"
  by (simp add: u64_def mod_add_left_eq)

lemma s64_u64: "s64 (u64 n) = s64 n"
  by (simp add: s64_def u64_def)

lemma rblock2offset_spec:
  "rblock2offset pcp N = s64 (spec_offset (pc_head pcp) N)"
  by (simp add: rblock2offset_def spec_offset_def Let_def s64_u64 u64_u64_add)

lemma high_mask_eq: "f \<le> 64 \<Longrightarrow> (2 ^ 64 - 2 ^ f :: nat) = push_bit f (mask (64 - f))"
proof -
  assume f: "f \<le> 64"
  have "(2 :: nat) ^ 64 = 2 ^ (64 - f) * 2 ^ f"
    using f by (simp add: power_add [symmetric])
  then show ?thesis
    by (simp add: push_bit_eq_mult mask_eq_exp_minus_1 diff_mult_distrib)
qed

lemma and_high_mask:
  fixes b :: nat
  assumes "b < 2 ^ 64" and "f \<le> 64"
  shows "b AND (2 ^ 64 - 2 ^ f) = (b div 2 ^ f) * 2 ^ f"
proof -
  have "bit (b AND push_bit f (mask (64 - f))) n = bit (push_bit f (drop_bit f b)) n" for n
  proof (cases "n < 64")
    case True
    then show ?thesis
      by (auto simp: bit_and_iff bit_push_bit_iff bit_mask_iff bit_drop_bit_eq)
  next
    case False
    then have "64 \<le> n" by simp
    then have "2 ^ 64 \<le> (2 :: nat) ^ n" by (rule power_increasing) simp
    with assms(1) have "b < 2 ^ n" by (rule less_le_trans)
    then have "\<not> bit b n" by (simp add: bit_iff_odd)
    then show ?thesis
      by (auto simp: bit_and_iff bit_push_bit_iff bit_drop_bit_eq)
  qed
  then have "b AND push_bit f (mask (64 - f)) = push_bit f (drop_bit f b)"
    by (rule bit_eqI)
  then show ?thesis
    by (simp only: high_mask_eq [OF assms(2)] push_bit_eq_mult drop_bit_eq_div)
qed

lemma spec_used_before_le: "spec_used_before bm b \<le> b"
  unfolding spec_used_before_def
  by (rule order_trans [OF length_filter_le]) simp

lemma seek_loop_count:
  assumes bm: "v1_bitmap v = Some bm" and len: "b \<le> length bm" and b64: "b < 2 ^ 64"
    and bits: "\<forall>i < b. bm ! i = 0 \<or> bm ! i = 1"
  shows "pbn \<le> b \<Longrightarrow> seek_loop v b pbn (spec_used_before bm pbn) = Inr (spec_used_before bm b)"
proof (induction "b - pbn" arbitrary: pbn)
  case 0
  then show ?case by (simp add: seek_loop.simps)
next
  case (Suc m)
  then have lt: "pbn < b" by simp
  with len have plen: "pbn < length bm" by simp
  from bits lt have v: "bm ! pbn = 0 \<or> bm ! pbn = 1" by simp
  have "spec_used_before bm pbn \<le> pbn" by (rule spec_used_before_le)
  with lt b64 have nw: "u64 (spec_used_before bm pbn + 1) = spec_used_before bm pbn + 1"
    by (simp add: u64_def)
  have nxt: "(if bm ! pbn \<noteq> 0 then u64 (spec_used_before bm pbn + 1) else spec_used_before bm pbn)
             = spec_used_before bm (Suc pbn)"
    using v plen nw by (auto simp: spec_used_before_Suc)
  have m: "m = b - Suc pbn" using Suc.hyps(2) by simp
  have "seek_loop v b pbn (spec_used_before bm pbn)
        = seek_loop v b (pbn + 1) (if bm ! pbn \<noteq> 0 then u64 (spec_used_before bm pbn + 1)
                                   else spec_used_before bm pbn)"
    using lt plen bm by (subst seek_loop.simps) (simp add: bitmap_at_def)
  also have "\<dots> = seek_loop v b (Suc pbn) (spec_used_before bm (Suc pbn))"
    by (simp only: nxt Suc_eq_plus1)
  also have "\<dots> = Inr (spec_used_before bm b)"
    using Suc.hyps(1) [OF m] lt by simp
  finally show ?case .
qed

lemma partclone_seek_on_01_usage_map:
  assumes rr: "PCTX_READREADY p" and vd: "PCTX_HAVE_VERDEP p" and d: "pc_dispatch p = Some d"
    and v: "pc_verdep p = Some v" and bm: "v1_bitmap v = Some bm"
    and len: "length bm = tb" and tb: "tb = totalblock (pc_head p)" and tb64: "tb < 2 ^ 64"
    and f: "f = v1_bitmap_factor v" and f64: "f \<le> 64"
    and sc: "v1_sumcount v = Some sc" and lsc: "length sc = tb div 2 ^ f + 1"
    and entries: "\<forall>k. k * 2 ^ f < tb \<longrightarrow> sc ! k = spec_used_before bm (k * 2 ^ f)"
    and bits: "\<forall>i < tb. bm ! i = 0 \<or> bm ! i = 1"
    and b: "b < tb" and nocf: "pc_cf_handle p = None"
  shows "partclone_seek p b
           = Inr (0, p\<lparr>pc_verdep := Some (v\<lparr>v1_nvbcount := spec_used_before bm b\<rparr>),
                       pc_curblock := b\<rparr>)
         \<and> rblock2offset p (spec_used_before bm b)
             = s64 (spec_offset (pc_head p) (spec_used_before bm b))"
proof -
  let ?k = "b div 2 ^ f"
  have kb: "?k * 2 ^ f \<le> b" by simp
  from kb b have ktb: "?k * 2 ^ f < tb" by (rule le_less_trans)
  have "?k \<le> tb div 2 ^ f" using b by (intro div_le_mono) simp
  with lsc have kl: "?k < length sc" by simp
  have at: "sumcount_at v (drop_bit f b) = Inr (spec_used_before bm (?k * 2 ^ f))"
    using sc kl entries ktb by (simp add: sumcount_at_def drop_bit_eq_div)
  have b64: "b < 2 ^ 64" using b tb64 by simp
  have start: "b AND (2 ^ 64 - 2 ^ f) = ?k * 2 ^ f"
    using b64 f64 by (rule and_high_mask)
  have bits': "\<forall>i < b. bm ! i = 0 \<or> bm ! i = 1" using bits b by simp
  have lenb: "b \<le> length bm" using b len by simp
  have loop: "seek_loop v b (?k * 2 ^ f) (spec_used_before bm (?k * 2 ^ f))
              = Inr (spec_used_before bm b)"
    using bm lenb b64 bits' kb by (rule seek_loop_count)
  have "v1_seek p b = Inr (0, p\<lparr>pc_verdep := Some (v\<lparr>v1_nvbcount := spec_used_before bm b\<rparr>)\<rparr>)"
    using vd v nocf at loop start
    by (simp add: v1_seek_def f [symmetric] Let_def)
  then have "partclone_seek p b
           = Inr (0, p\<lparr>pc_verdep := Some (v\<lparr>v1_nvbcount := spec_used_before bm b\<rparr>),
                       pc_curblock := b\<rparr>)"
    using rr d b tb by (cases d) (simp_all add: partclone_seek_def)
  then show ?thesis by (simp add: rblock2offset_spec)
qed

lemma v1_readblock_unused:
  assumes vd: "PCTX_HAVE_VERDEP p" and v: "pc_verdep p = Some v" and bm: "v1_bitmap v = Some bm"
    and cur: "pc_curblock p < length bm" and zero: "bm ! pc_curblock p = 0"
    and nocf: "pc_cf_handle p = None"
    and iv: "pc_ivblock p = Some (replicate (block_size (pc_head p)) 0)"
  shows "v1_readblock p buffer cbp
           = Inr (0, p, memcpy_at buffer cbp (replicate (block_size (pc_head p)) 0))"
  using assms by (simp add: v1_readblock_def bitmap_at_def EINVAL_def)

lemma v2_bitmap_byte_01: "v2_bitmap_byte bitmap i = 0 \<or> v2_bitmap_byte bitmap i = 1"
  by (simp add: v2_bitmap_byte_def)

text \<open>
  When the conversion loop of \<open>v2_verify\<close> returns, the block count is within the
  range of its \<open>int\<close> counter and the bytes it stored are those of
  \<open>v2_bitmap_byte\<close>.
\<close>

lemma v2_bitmap_loop_returns:
  "v2_bitmap_loop bitmap tb i bm = Inr bm' \<Longrightarrow> i \<le> tb \<Longrightarrow>
     length bm' = length bm \<and> (i < tb \<longrightarrow> int tb \<le> INT_MAX)
     \<and> (\<forall>k < i. bm' ! k = bm ! k)
     \<and> (\<forall>k. i \<le> k \<and> k < tb \<longrightarrow> bm' ! k = v2_bitmap_byte bitmap k)"
proof (induction "tb - i" arbitrary: i bm)
  case 0
  then show ?case by (auto simp: v2_bitmap_loop.simps)
next
  case (Suc m)
  then have lt: "i < tb" by simp
  let ?bm1 = "bm[i := v2_bitmap_byte bitmap i]"
  from Suc.prems(1) lt
  have ok: "i < length bm" "drop_bit 3 i < length bitmap" "int i < INT_MAX"
    and rec: "v2_bitmap_loop bitmap tb (i + 1) ?bm1 = Inr bm'"
    by (subst (asm) v2_bitmap_loop.simps, simp split: if_splits)+
  have m: "m = tb - (i + 1)" using Suc.hyps(2) by simp
  from lt have le: "i + 1 \<le> tb" by simp
  note ih = Suc.hyps(1) [OF m rec le]
  have a: "length bm' = length bm" using ih by simp
  have b: "int tb \<le> INT_MAX"
  proof (cases "i + 1 < tb")
    case True
    with ih show ?thesis by simp
  next
    case False
    with lt have "tb = i + 1" by simp
    with ok(3) show ?thesis by simp
  qed
  have c: "\<forall>k < i. bm' ! k = bm ! k"
    using ih by simp
  have d: "bm' ! k = v2_bitmap_byte bitmap k" if "i \<le> k" and "k < tb" for k
  proof (cases "k = i")
    case True
    with ih ok(1) show ?thesis by simp
  next
    case False
    with that ih show ?thesis by simp
  qed
  from a b c d show ?case by simp
qed

subsection \<open>The base image\<close>

lemma same_base_refl [simp]: "same_base p p"
  by (simp add: same_base_def)

lemma same_base_trans: "same_base p q \<Longrightarrow> same_base q r \<Longrightarrow> same_base p r"
  by (simp add: same_base_def)

lemma same_base_fd: "pc_fd q = pc_fd p \<Longrightarrow> same_base p q"
  by (simp add: same_base_def)

lemma posix_read_frame:
  "posix_read fh len = (e, n, bytes, fh') \<Longrightarrow> f_data fh' = f_data fh \<and> f_omode fh' = f_omode fh"
  by (auto simp: posix_read_def Let_def)

lemma posix_seek_frame:
  "posix_seek fh off = (e, fh') \<Longrightarrow> f_data fh' = f_data fh \<and> f_omode fh' = f_omode fh"
  by (auto simp: posix_seek_def split: if_splits)

lemma v1_init_frame: "v1_init p = (e, p') \<Longrightarrow> same_base p p'"
  by (auto simp: v1_init_def Let_def same_base_def split: if_splits prod.splits)

lemma precalculate_sumcount_frame: "precalculate_sumcount p = Inr (e, p') \<Longrightarrow> same_base p p'"
  by (auto simp: precalculate_sumcount_def Let_def same_base_def
      split: if_splits option.splits sum.splits)

lemma v1_verify_frame: "v1_verify p = Inr (e, p') \<Longrightarrow> same_base p p'"
  by (auto simp: v1_verify_def Let_def same_base_def posix_seek_def
      dest!: precalculate_sumcount_frame posix_read_frame
      split: if_splits option.splits prod.splits)

lemma v2_verify_frame: "v2_verify p = Inr (e, p') \<Longrightarrow> same_base p p'"
  by (auto simp: v2_verify_def Let_def same_base_def posix_seek_def
      dest!: precalculate_sumcount_frame posix_read_frame
      split: if_splits option.splits prod.splits sum.splits)

lemma version_verify_frame: "version_verify d p = Inr (e, p') \<Longrightarrow> same_base p p'"
  by (cases d) (simp_all add: v1_verify_frame v2_verify_frame)

lemma version_init_frame: "version_init d p = (e, p') \<Longrightarrow> same_base p p'"
  by (cases d) (simp_all add: v1_init_frame)

lemma partclone_verify_frame: "partclone_verify p = Inr (e, p') \<Longrightarrow> same_base p p'"
proof -
  assume a: "partclone_verify p = Inr (e, p')"
  obtain e1 n bytes fd1 where rd: "posix_read (pc_fd p) (sizeof_head_v1 (pc_abi p)) = (e1, n, bytes, fd1)"
    by (cases "posix_read (pc_fd p) (sizeof_head_v1 (pc_abi p))") auto
  note fr = posix_read_frame [OF rd]
  let ?p1 = "p\<lparr>pc_fd := fd1, pc_head_raw := bytes @ drop (length bytes) (pc_head_raw p)\<rparr>"
  have p1: "same_base p ?p1" using fr by (simp add: same_base_def)
  show ?thesis
  proof (cases "PCTX_OPEN p \<and> e1 = 0 \<and> n = sizeof_head_v1 (pc_abi p)")
    case False
    with a rd p1 show ?thesis
      by (auto simp: partclone_verify_def Let_def same_base_def split: if_splits)
  next
    case True
    show ?thesis
    proof (cases "find_version (h1_version (pc_head_v1 ?p1))")
      case None
      with a rd True p1 show ?thesis
        by (auto simp: partclone_verify_def Let_def)
    next
      case (Some d)
      obtain e2 p2 where i: "version_init d (?p1\<lparr>pc_dispatch := Some d\<rparr>) = (e2, p2)"
        by (cases "version_init d (?p1\<lparr>pc_dispatch := Some d\<rparr>)") auto
      from version_init_frame [OF i] p1 have p2: "same_base p p2"
        by (simp add: same_base_def)
      show ?thesis
      proof (cases "e2 = 0")
        case False
        with a rd True Some i p2 show ?thesis
          by (auto simp: partclone_verify_def Let_def)
      next
        case e2: True
        from a rd True Some i e2 obtain e3 p3 where v: "version_verify d p2 = Inr (e3, p3)"
          by (auto simp: partclone_verify_def Let_def split: sum.splits)
        from version_verify_frame [OF v] p2 have p3: "same_base p p3"
          by (rule same_base_trans [rotated])
        from a rd True Some i e2 v p3 show ?thesis
          by (auto simp: partclone_verify_def Let_def same_base_def split: if_splits)
      qed
    qed
  qed
qed

lemma v1_seek_frame: "v1_seek p b = Inr (e, p') \<Longrightarrow> pc_fd p' = pc_fd p"
  by (auto simp: v1_seek_def Let_def split: if_splits option.splits sum.splits prod.splits)

lemma partclone_seek_frame: "partclone_seek p b = Inr (e, p') \<Longrightarrow> same_base p p'"
proof -
  assume a: "partclone_seek p b = Inr (e, p')"
  show ?thesis
  proof (cases "PCTX_READREADY p \<and> b \<le> totalblock (pc_head p)")
    case False
    with a show ?thesis by (auto simp: partclone_seek_def)
  next
    case True
    with a obtain d where d: "pc_dispatch p = Some d"
      by (auto simp: partclone_seek_def split: option.splits)
    with a True obtain e1 p1 where s: "version_seek d p b = Inr (e1, p1)"
      by (auto simp: partclone_seek_def split: sum.splits)
    then have "v1_seek p b = Inr (e1, p1)" by (cases d) simp_all
    from v1_seek_frame [OF this] a True d s show ?thesis
      by (auto simp: partclone_seek_def same_base_def split: if_splits)
  qed
qed

lemma v1_readblock_frame: "v1_readblock p buf cbp = Inr (e, p', buf') \<Longrightarrow> same_base p p'"
  by (auto simp: v1_readblock_def same_base_def posix_seek_def posix_read_def Let_def
      split: if_splits option.splits sum.splits prod.splits)

lemma version_readblock_frame: "version_readblock d p buf cbp = Inr (e, p', buf') \<Longrightarrow> same_base p p'"
  by (cases d) (simp_all add: v1_readblock_frame)

lemma readblocks_loop_frame:
  "readblocks_loop n i e0 p buf cbp = Inr (e, k, p', buf') \<Longrightarrow> same_base p p'"
proof (induction "n - i" arbitrary: i e0 p buf cbp)
  case 0
  then show ?case by (simp add: readblocks_loop.simps)
next
  case (Suc m)
  then have lt: "i < n" by simp
  from lt Suc.prems(1) obtain d where d: "pc_dispatch p = Some d"
    by (auto simp: readblocks_loop.simps split: option.splits)
  from lt d Suc.prems(1) obtain e1 p1 buf1
    where rb: "version_readblock d p buf cbp = Inr (e1, p1, buf1)"
    by (auto simp: readblocks_loop.simps split: sum.splits)
  note fr = version_readblock_frame [OF rb]
  show ?case
  proof (cases "e1 = 0")
    case False
    with lt d rb Suc.prems fr show ?thesis
      by (auto simp: readblocks_loop.simps)
  next
    case e1: True
    let ?q = "p1\<lparr>pc_curblock := u64 (pc_curblock p1 + 1)\<rparr>"
    from lt d rb e1 Suc.prems(1)
    have rec: "readblocks_loop n (i + 1) e1 ?q buf1 (cbp + block_size (pc_head p1))
               = Inr (e, k, p', buf')"
      by (simp add: readblocks_loop.simps)
    have m: "m = n - (i + 1)" using Suc.hyps(2) by simp
    from Suc.hyps(1) [OF m rec] fr show ?thesis
      by (simp add: same_base_def)
  qed
qed

lemma v1_writeblock_frame: "v1_writeblock p buf cbp = (e, p') \<Longrightarrow> same_base p p'"
  by (auto simp: v1_writeblock_def Let_def same_base_def split: if_splits prod.splits)

lemma version_writeblock_frame: "version_writeblock d p buf cbp = (e, p') \<Longrightarrow> same_base p p'"
  by (cases d) (simp_all add: v1_writeblock_frame)

lemma writeblocks_loop_frame:
  "writeblocks_loop n i e0 p buf cbp = Inr (e, k, p') \<Longrightarrow> same_base p p'"
proof (induction "n - i" arbitrary: i e0 p cbp)
  case 0
  then show ?case by (simp add: writeblocks_loop.simps)
next
  case (Suc m)
  then have lt: "i < n" by simp
  from lt Suc.prems(1) obtain d where d: "pc_dispatch p = Some d"
    by (auto simp: writeblocks_loop.simps split: option.splits)
  obtain e1 p1 where wb: "version_writeblock d p buf cbp = (e1, p1)"
    by (cases "version_writeblock d p buf cbp")
  note fr = version_writeblock_frame [OF wb]
  show ?case
  proof (cases "e1 = 0")
    case False
    with lt d wb Suc.prems fr show ?thesis
      by (auto simp: writeblocks_loop.simps)
  next
    case e1: True
    let ?q = "p1\<lparr>pc_curblock := u64 (pc_curblock p1 + 1)\<rparr>"
    from lt d wb e1 Suc.prems(1)
    have rec: "writeblocks_loop n (i + 1) e1 ?q buf (cbp + block_size (pc_head p1))
               = Inr (e, k, p')"
      by (simp add: writeblocks_loop.simps)
    have m: "m = n - (i + 1)" using Suc.hyps(2) by simp
    from Suc.hyps(1) [OF m rec] fr show ?thesis
      by (simp add: same_base_def)
  qed
qed

text \<open>
  C9. \<open>partclone_open\<close> opens the image with \<open>SYSDEP_OPEN_RO\<close> whatever open mode
  the caller asks for, and tolerant mode, verify, seek, \<open>partclone_readblocks\<close> and
  \<open>partclone_writeblocks\<close> leave the bytes of the file behind \<open>pc_fd\<close> and its
  mode as they were: the engine calls \<open>sys_seek\<close> and \<open>sys_read\<close> on \<open>pc_fd\<close>
  and never \<open>sys_write\<close>; written blocks go to the change file. (The remaining
  entry points, the size and position queries, \<open>partclone_block_used\<close> and
  \<open>partclone_sync\<close>, do not touch \<open>pc_fd\<close>; \<open>partclone_close\<close> closes it.)
\<close>

theorem C9_base_image_is_opened_read_only_and_never_written:
  "(partclone_open path cfpath omode sysdep abi = (e0, Some p0)
      \<longrightarrow> f_omode (pc_fd p0) = SYSDEP_OPEN_RO \<and> sys_files sysdep path = Some (f_data (pc_fd p0)))
   \<and> same_base pt (partclone_tolerant_mode pt)
   \<and> (partclone_verify pv = Inr (ev, pv') \<longrightarrow> same_base pv pv')
   \<and> (partclone_seek ps blockno = Inr (es, ps') \<longrightarrow> same_base ps ps')
   \<and> (partclone_readblocks pr rbuffer rn = Inr (er, pr', rbuffer') \<longrightarrow> same_base pr pr')
   \<and> (partclone_writeblocks pw wbuffer wn = Inr (ew, pw') \<longrightarrow> same_base pw pw')"
proof (intro conjI impI)
  assume "partclone_open path cfpath omode sysdep abi = (e0, Some p0)"
  then show "f_omode (pc_fd p0) = SYSDEP_OPEN_RO"
    and "sys_files sysdep path = Some (f_data (pc_fd p0))"
    by (auto simp: partclone_open_def posix_open_def Let_def
        split: if_splits option.splits prod.splits)
next
  show "same_base pt (partclone_tolerant_mode pt)"
    by (simp add: partclone_tolerant_mode_def same_base_def)
next
  assume "partclone_verify pv = Inr (ev, pv')"
  then show "same_base pv pv'" by (rule partclone_verify_frame)
next
  assume "partclone_seek ps blockno = Inr (es, ps')"
  then show "same_base ps ps'" by (rule partclone_seek_frame)
next
  assume "partclone_readblocks pr rbuffer rn = Inr (er, pr', rbuffer')"
  then show "same_base pr pr'"
    by (auto simp: partclone_readblocks_def split: if_splits sum.splits
        dest: readblocks_loop_frame)
next
  assume "partclone_writeblocks pw wbuffer wn = Inr (ew, pw')"
  then show "same_base pw pw'"
    by (auto simp: partclone_writeblocks_def split: if_splits sum.splits
        dest: writeblocks_loop_frame)
qed

text \<open>
  Witness for C9: \<open>img_b\<close> opened read-write, verified, block 1 written and read
  back; the file behind \<open>pc_fd\<close> is still \<open>img_b\<close>.
\<close>

theorem C9_base_image_witness:
  "partclone_open ''disk.img'' None SYSDEP_OPEN_RW (sample_sysdep img_b) sample_abi
     = (0, Some (sample_opened SYSDEP_OPEN_RW img_b))
   \<and> f_omode (pc_fd (sample_opened SYSDEP_OPEN_RW img_b)) = SYSDEP_OPEN_RO
   \<and> sys_files (sample_sysdep img_b) ''disk.img''
       = Some (f_data (pc_fd (sample_opened SYSDEP_OPEN_RW img_b)))
   \<and> same_base (sample_opened SYSDEP_OPEN_RW img_b)
        (partclone_tolerant_mode (sample_opened SYSDEP_OPEN_RW img_b))
   \<and> partclone_verify (sample_opened SYSDEP_OPEN_RW img_b)
       = Inr (0, sample_verified SYSDEP_OPEN_RW img_b)
   \<and> same_base (sample_opened SYSDEP_OPEN_RW img_b) (sample_verified SYSDEP_OPEN_RW img_b)
   \<and> partclone_seek (sample_verified SYSDEP_OPEN_RW img_b) 1 = Inr (0, sample_sought)
   \<and> same_base (sample_verified SYSDEP_OPEN_RW img_b) sample_sought
   \<and> partclone_writeblocks sample_sought [0x11, 0x22, 0x33, 0x44] 1 = Inr (0, sample_written)
   \<and> same_base sample_sought sample_written
   \<and> partclone_readblocks sample_resought [0, 0, 0, 0] 1
       = Inr (0, fst (snd (projr (partclone_readblocks sample_resought [0, 0, 0, 0] 1))),
              [0x11, 0x22, 0x33, 0x44])
   \<and> same_base sample_resought
        (fst (snd (projr (partclone_readblocks sample_resought [0, 0, 0, 0] 1))))
   \<and> f_data (pc_fd sample_written) = img_b"
proof -
  have a: "partclone_open ''disk.img'' None SYSDEP_OPEN_RW (sample_sysdep img_b) sample_abi
             = (0, Some (sample_opened SYSDEP_OPEN_RW img_b))"
    "partclone_verify (sample_opened SYSDEP_OPEN_RW img_b)
       = Inr (0, sample_verified SYSDEP_OPEN_RW img_b)"
    "partclone_seek (sample_verified SYSDEP_OPEN_RW img_b) 1 = Inr (0, sample_sought)"
    "partclone_writeblocks sample_sought [0x11, 0x22, 0x33, 0x44] 1 = Inr (0, sample_written)"
    "partclone_readblocks sample_resought [0, 0, 0, 0] 1
       = Inr (0, fst (snd (projr (partclone_readblocks sample_resought [0, 0, 0, 0] 1))),
              [0x11, 0x22, 0x33, 0x44])"
    "f_data (pc_fd sample_written) = img_b"
    by (simp_all add: sample_resought_def sample_written_def sample_sought_def eval_defs img_b_def)
  from a C9_base_image_is_opened_read_only_and_never_written
    [where path = "''disk.img''" and cfpath = None and omode = SYSDEP_OPEN_RW
       and sysdep = "sample_sysdep img_b" and abi = sample_abi and ?e0.0 = 0
       and ?p0.0 = "sample_opened SYSDEP_OPEN_RW img_b"
       and pt = "sample_opened SYSDEP_OPEN_RW img_b"
       and pv = "sample_opened SYSDEP_OPEN_RW img_b" and ev = 0
       and pv' = "sample_verified SYSDEP_OPEN_RW img_b"
       and ps = "sample_verified SYSDEP_OPEN_RW img_b" and blockno = 1 and es = 0
       and ps' = sample_sought
       and pr = sample_resought and rbuffer = "[0, 0, 0, 0]" and rn = 1 and er = 0
       and pr' = "fst (snd (projr (partclone_readblocks sample_resought [0, 0, 0, 0] 1)))"
       and rbuffer' = "[0x11, 0x22, 0x33, 0x44]"
       and pw = sample_sought and wbuffer = "[0x11, 0x22, 0x33, 0x44]" and wn = 1 and ew = 0
       and pw' = sample_written]
  show ?thesis by simp
qed

subsection \<open>The change file shadows the base image\<close>




lemma version_writeblock_v1 [simp]: "version_writeblock d = v1_writeblock"
  by (cases d) simp_all

lemma version_readblock_v1 [simp]: "version_readblock d = v1_readblock"
  by (cases d) simp_all

lemma version_seek_v1 [simp]: "version_seek d = v1_seek"
  by (cases d) simp_all

lemma macros_curblock [simp]:
  "PCTX_WRITEREADY (p\<lparr>pc_curblock := c\<rparr>) = PCTX_WRITEREADY p"
  "PCTX_WRITEABLE (p\<lparr>pc_curblock := c\<rparr>) = PCTX_WRITEABLE p"
  "PCTX_HAVE_VERDEP (p\<lparr>pc_curblock := c\<rparr>) = PCTX_HAVE_VERDEP p"
  "PCTX_READREADY (p\<lparr>pc_curblock := c\<rparr>) = PCTX_READREADY p"
  "overlay_has (p\<lparr>pc_curblock := c\<rparr>) j d = overlay_has p j d"
  by (simp_all add: macro_defs overlay_has_def)
















end
